theory Spec2Isabelle
  imports Main "HOL-Library.Sublist"
begin

section \<open>Text\<close>

text \<open>
  A Python \<open>str\<close> is a sequence of Unicode code points, and \<open>len\<close>, \<open>startswith\<close>,
  \<open>split\<close> and \<open>replace\<close> count and compare code points. Text is therefore a list of
  code points, and a literal of the source is written \<open>lit ''...''\<close>. The marker
  of the attachment request (ZA, U+0141, U+0104, CZNIK and a colon) holds two letters
  outside ASCII and is written out as
  code points.
\<close>

type_synonym str = "nat list"

definition lit :: "string \<Rightarrow> str" where
  "lit s = map of_char s"

abbreviation PIPE :: nat where "PIPE \<equiv> 124"
abbreviation DOT :: nat where "DOT \<equiv> 46"
abbreviation COLON :: nat where "COLON \<equiv> 58"

text \<open>
  \<open>str.isspace\<close> of one code point: the table of CPython's \<open>_PyUnicode_IsWhitespace\<close>
  (U+0009..U+000D, U+001C..U+0020, U+0085, U+00A0, U+1680, U+2000..U+200A, U+2028, U+2029,
  U+202F, U+205F, U+3000). \<open>strip()\<close> and \<open>split()\<close> without arguments use it.
\<close>

definition isspace :: "nat \<Rightarrow> bool" where
  "isspace c \<longleftrightarrow>
     (9 \<le> c \<and> c \<le> 13) \<or> (28 \<le> c \<and> c \<le> 32) \<or> c = 133 \<or> c = 160 \<or> c = 5760 \<or>
     (8192 \<le> c \<and> c \<le> 8202) \<or> c = 8232 \<or> c = 8233 \<or> c = 8239 \<or> c = 8287 \<or> c = 12288"

definition py_strip :: "str \<Rightarrow> str" where
  "py_strip s = rev (dropWhile isspace (rev (dropWhile isspace s)))"

text \<open>
  What the Python runtime decides and the repository does not: the tables of the Unicode
  database beyond the first code points, the cap on the digits of a numeral, and
  floating-point arithmetic. They are taken as a parameter \<open>rt\<close> of the model, and every
  theorem holds for every value of it.
  \<^item> \<open>lower_at rt s i\<close> is what \<open>str.lower\<close> writes for the code point at position \<open>i\<close> of
    \<open>s\<close>, for a code point above U+00FF (one code point may become several, and the
    capital sigma depends on its neighbours);
  \<^item> \<open>decimal_value rt c\<close> is the value of \<open>c\<close> as a decimal digit, for a code point outside
    ASCII (\<open>int\<close> accepts the decimal digits of every script);
  \<^item> \<open>max_str_digits rt\<close> is the interpreter's cap on the digits of a numeral for \<open>int\<close>
    (\<open>sys.get_int_max_str_digits()\<close>: 4300 by default from Python 3.11 on, never between
    1 and 639, and 0 when there is no cap);
  \<^item> \<open>float_seconds rt d\<close> is the number of microseconds of
    \<open>timedelta(seconds=td.total_seconds())\<close> for a \<open>td\<close> of \<open>d\<close> microseconds: the way through
    a float that \<open>schedule_email_datetime\<close> takes.
\<close>

record runtime =
  lower_at :: "str \<Rightarrow> nat \<Rightarrow> str"
  decimal_value :: "nat \<Rightarrow> nat option"
  max_str_digits :: nat
  float_seconds :: "int \<Rightarrow> int"

text \<open>
  \<open>str.lower\<close>, code point by code point. Up to U+00FF the table is written out (the
  letters A..Z and the capital letters of Latin-1, each to one code point); beyond it the
  runtime's table is asked.
\<close>

definition lower_cp :: "nat \<Rightarrow> nat" where
  "lower_cp c =
     (if (65 \<le> c \<and> c \<le> 90) \<or> (192 \<le> c \<and> c \<le> 214) \<or> (216 \<le> c \<and> c \<le> 222)
      then c + 32 else c)"

fun lower_from :: "runtime \<Rightarrow> str \<Rightarrow> nat \<Rightarrow> str \<Rightarrow> str" where
  "lower_from rt s i [] = []"
| "lower_from rt s i (c # cs) =
     (if c \<le> 255 then [lower_cp c] else lower_at rt s i) @ lower_from rt s (Suc i) cs"

definition py_lower :: "runtime \<Rightarrow> str \<Rightarrow> str" where
  "py_lower rt s = lower_from rt s 0 s"

text \<open>\<open>needle in haystack\<close> for two strings.\<close>

fun py_contains :: "str \<Rightarrow> str \<Rightarrow> bool" where
  "py_contains needle [] = (needle = [])"
| "py_contains needle (c # cs) = (prefix needle (c # cs) \<or> py_contains needle cs)"

text \<open>
  \<open>s.replace(old, new)\<close>: every occurrence of \<open>old\<close>, found from the left and without
  overlap, is replaced. The program only replaces its two markers, so \<open>old\<close> is never
  empty; for an empty \<open>old\<close> the model returns the string as it is.
\<close>

fun py_replace :: "str \<Rightarrow> str \<Rightarrow> str \<Rightarrow> str" where
  "py_replace old new [] = []"
| "py_replace old new (c # cs) =
     (if old \<noteq> [] \<and> prefix old (c # cs)
      then new @ py_replace old new (drop (length old - 1) cs)
      else c # py_replace old new cs)"

text \<open>\<open>s.split(sep)\<close> for a separator of one code point: empty fields are kept.\<close>

fun py_split :: "nat \<Rightarrow> str \<Rightarrow> str list" where
  "py_split sep [] = [[]]"
| "py_split sep (c # cs) =
     (if c = sep then [] # py_split sep cs
      else (case py_split sep cs of
              [] \<Rightarrow> [[c]]
            | f # fs \<Rightarrow> (c # f) # fs))"

text \<open>\<open>s.split()\<close>: the maximal runs of code points that are not white space.\<close>

fun py_split_ws :: "str \<Rightarrow> str list" where
  "py_split_ws [] = []"
| "py_split_ws (c # cs) =
     (if isspace c then py_split_ws cs
      else if cs = [] \<or> isspace (hd cs) then [c] # py_split_ws cs
      else (case py_split_ws cs of
              [] \<Rightarrow> [[c]]
            | w # ws \<Rightarrow> (c # w) # ws))"

section \<open>The protocol parser\<close>

text \<open>
  \<open>parse_ai_response\<close> (telegram\_bot.py) returns a pair of the action's name and a
  dictionary. The three pairs it builds are the constructors of \<open>action\<close>. When the
  response starts with the ready marker and has fewer than three fields, no \<open>return\<close> is
  reached and Python returns \<open>None\<close>: that is the value \<open>None\<close> here.
\<close>

record email_data =
  subject :: str
  body :: str
  send_time :: str

datatype action =
    schedule_email email_data
  | request_attachment str
  | text_response str

definition GOTOWE :: str where
  "GOTOWE = lit ''GOTOWE:''"

definition ZALACZNIK :: str where
  "ZALACZNIK = [90, 65, 321, 260, 67, 90, 78, 73, 75, 58]"

definition parse_ai_response :: "str \<Rightarrow> action option" where
  "parse_ai_response r =
     (let response = py_strip r in
      if prefix GOTOWE response then
        (let data_part = py_strip (py_replace GOTOWE [] response);
             parts = py_split PIPE data_part
         in if 3 \<le> length parts
            then Some (schedule_email
                   \<lparr>subject = py_strip (parts ! 0),
                    body = py_strip (parts ! 1),
                    send_time = py_strip (parts ! 2)\<rparr>)
            else None)
      else if prefix ZALACZNIK response then
        Some (request_attachment (py_strip (py_replace ZALACZNIK [] response)))
      else Some (text_response response))"

section \<open>Integers from text\<close>

text \<open>
  \<open>int(s)\<close> in base ten. CPython first maps white space outside ASCII to a blank, then
  skips the ASCII white space U+0009..U+000D and U+0020 on both sides (the separators
  U+001C..U+001F are not skipped), reads an optional sign and then decimal digits, where
  single underscores may stand between digits. Anything else is a \<open>ValueError\<close>: the
  value \<open>None\<close> here. The digits are 0..9 and the decimal digits that the runtime's table
  gives outside ASCII. A numeral with more digits than the runtime's cap is a
  \<open>ValueError\<close> too; the cap counts the digits only (leading zeros too) and never applies
  to 640 digits or fewer.
\<close>

definition int_space :: "nat \<Rightarrow> bool" where
  "int_space c \<longleftrightarrow> (9 \<le> c \<and> c \<le> 13) \<or> c = 32 \<or> (128 \<le> c \<and> isspace c)"

definition digit_of :: "runtime \<Rightarrow> nat \<Rightarrow> nat option" where
  "digit_of rt c =
     (if 48 \<le> c \<and> c \<le> 57 then Some (c - 48)
      else if c < 128 \<or> isspace c then None
      else decimal_value rt c)"

fun int_digits :: "runtime \<Rightarrow> nat \<Rightarrow> str \<Rightarrow> nat option" where
  "int_digits rt acc [] = Some acc"
| "int_digits rt acc (c # cs) =
     (case digit_of rt c of
        Some v \<Rightarrow> int_digits rt (10 * acc + v) cs
      | None \<Rightarrow>
          (if c = 95 then
             (case cs of
                [] \<Rightarrow> None
              | d # ds \<Rightarrow>
                  (case digit_of rt d of
                     Some v \<Rightarrow> int_digits rt (10 * acc + v) ds
                   | None \<Rightarrow> None))
           else None))"

definition too_many_digits :: "runtime \<Rightarrow> str \<Rightarrow> bool" where
  "too_many_digits rt s \<longleftrightarrow>
     0 < max_str_digits rt \<and>
     max (max_str_digits rt) 640 < length (filter (\<lambda>c. digit_of rt c \<noteq> None) s)"

definition int_unsigned :: "runtime \<Rightarrow> str \<Rightarrow> nat option" where
  "int_unsigned rt s =
     (if too_many_digits rt s then None
      else
        (case s of
           [] \<Rightarrow> None
         | c # cs \<Rightarrow>
             (case digit_of rt c of Some v \<Rightarrow> int_digits rt v cs | None \<Rightarrow> None)))"

definition py_int :: "runtime \<Rightarrow> str \<Rightarrow> int option" where
  "py_int rt s =
     (let t = rev (dropWhile int_space (rev (dropWhile int_space s))) in
      case t of
        [] \<Rightarrow> None
      | c # cs \<Rightarrow>
          if c = 45 then map_option (\<lambda>n. - int n) (int_unsigned rt cs)
          else if c = 43 then map_option int (int_unsigned rt cs)
          else map_option int (int_unsigned rt t))"

section \<open>Dates and times\<close>

text \<open>
  The program uses naive \<open>datetime\<close> values only: instants of the proleptic Gregorian
  calendar without a time zone, from 0001-01-01 00:00:00 to 9999-12-31 23:59:59.999999,
  compared and subtracted as such. A \<open>datetime\<close> is modelled as its number of
  microseconds since 0001-01-01 00:00:00 and a \<open>timedelta\<close> as a number of microseconds.
  \<open>MAX_US\<close> is the first instant after the last \<open>datetime\<close>.
\<close>

datatype error = ValueError | IndexError | OverflowError | KeyError | TypeError | SystemExit

type_synonym datetime = int
type_synonym timedelta = int

abbreviation US_MINUTE :: int where "US_MINUTE \<equiv> 60000000"
abbreviation US_HOUR :: int where "US_HOUR \<equiv> 3600000000"
abbreviation US_DAY :: int where "US_DAY \<equiv> 86400000000"
abbreviation MAX_US :: int where "MAX_US \<equiv> 315537897600000000"

text \<open>
  \<open>timedelta(minutes=a)\<close>, \<open>timedelta(hours=a)\<close> and \<open>timedelta(days=a)\<close>: the duration is
  normalised to days, seconds and microseconds, and an \<open>OverflowError\<close> is raised when
  the days exceed 999999999 in magnitude.
\<close>

definition timedelta :: "int \<Rightarrow> int \<Rightarrow> error + timedelta" where
  "timedelta unit amount =
     (let us = amount * unit in
      if - 999999999 \<le> us div US_DAY \<and> us div US_DAY \<le> 999999999
      then Inr us else Inl OverflowError)"

text \<open>\<open>datetime + timedelta\<close>: an \<open>OverflowError\<close> when the sum leaves the years 1..9999.\<close>

definition datetime_add :: "datetime \<Rightarrow> timedelta \<Rightarrow> error + datetime" where
  "datetime_add t d = (if 0 \<le> t + d \<and> t + d < MAX_US then Inr (t + d) else Inl OverflowError)"

definition is_leap :: "int \<Rightarrow> bool" where
  "is_leap y \<longleftrightarrow> y mod 4 = 0 \<and> (y mod 400 = 0 \<or> y mod 100 \<noteq> 0)"

definition days_in_month :: "int \<Rightarrow> int \<Rightarrow> int" where
  "days_in_month y m =
     (if m = 2 then (if is_leap y then 29 else 28)
      else if m = 4 \<or> m = 6 \<or> m = 9 \<or> m = 11 then 30 else 31)"

definition days_before_year :: "int \<Rightarrow> int" where
  "days_before_year y = (y - 1) * 365 + (y - 1) div 4 - (y - 1) div 100 + (y - 1) div 400"

definition days_before_month :: "int \<Rightarrow> int \<Rightarrow> int" where
  "days_before_month y m =
     [0, 31, 59, 90, 120, 151, 181, 212, 243, 273, 304, 334] ! nat (m - 1) +
     (if 2 < m \<and> is_leap y then 1 else 0)"

definition ymd2ord :: "int \<Rightarrow> int \<Rightarrow> int \<Rightarrow> int" where
  "ymd2ord y m d = days_before_year y + days_before_month y m + d"

text \<open>The instant \<open>y-m-d h:mi:00\<close>, for fields that are in range.\<close>

definition mk_datetime :: "int \<Rightarrow> int \<Rightarrow> int \<Rightarrow> int \<Rightarrow> int \<Rightarrow> datetime" where
  "mk_datetime y m d h mi = (ymd2ord y m d - 1) * US_DAY + h * US_HOUR + mi * US_MINUTE"

text \<open>
  The constructor \<open>datetime(year, month, day, hour, minute)\<close> and
  \<open>now.replace(hour=h, minute=m, second=0, microsecond=0)\<close>. CPython converts each
  argument to a C \<open>int\<close> first (an \<open>OverflowError\<close> when it does not fit) and then checks
  the ranges (a \<open>ValueError\<close>).
\<close>

definition c_int :: "int \<Rightarrow> bool" where
  "c_int x \<longleftrightarrow> - 2147483648 \<le> x \<and> x \<le> 2147483647"

definition datetime_new :: "int \<Rightarrow> int \<Rightarrow> int \<Rightarrow> int \<Rightarrow> int \<Rightarrow> error + datetime" where
  "datetime_new y m d h mi =
     (if \<not> (c_int y \<and> c_int m \<and> c_int d \<and> c_int h \<and> c_int mi) then Inl OverflowError
      else if 1 \<le> y \<and> y \<le> 9999 \<and> 1 \<le> m \<and> m \<le> 12 \<and> 1 \<le> d \<and> d \<le> days_in_month y m \<and>
              0 \<le> h \<and> h \<le> 23 \<and> 0 \<le> mi \<and> mi \<le> 59
      then Inr (mk_datetime y m d h mi)
      else Inl ValueError)"

definition replace_hm :: "datetime \<Rightarrow> int \<Rightarrow> int \<Rightarrow> error + datetime" where
  "replace_hm t h mi =
     (if \<not> (c_int h \<and> c_int mi) then Inl OverflowError
      else if 0 \<le> h \<and> h \<le> 23 \<and> 0 \<le> mi \<and> mi \<le> 59
      then Inr (t div US_DAY * US_DAY + h * US_HOUR + mi * US_MINUTE)
      else Inl ValueError)"

section \<open>The time-expression parser\<close>

text \<open>
  \<open>parse_send_time\<close> (telegram\_bot.py). \<open>now\<close> is the one reading of the clock the
  function takes. \<open>parse_send_time_try\<close> is the body of its \<open>try\<close>: it returns an instant,
  raises, or falls out of the \<open>if\<close> chain without returning (\<open>Inr None\<close>).
  \<open>parse_send_time\<close> adds the handler for \<open>ValueError\<close> and \<open>IndexError\<close> and the final
  default of one hour from now; any other exception escapes.
\<close>

definition now_plus :: "datetime \<Rightarrow> int \<Rightarrow> int \<Rightarrow> error + datetime option" where
  "now_plus now unit amount =
     (case timedelta unit amount of
        Inl e \<Rightarrow> Inl e
      | Inr d \<Rightarrow> (case datetime_add now d of Inl e \<Rightarrow> Inl e | Inr t \<Rightarrow> Inr (Some t)))"

definition parse_send_time_try :: "runtime \<Rightarrow> datetime \<Rightarrow> str \<Rightarrow> error + datetime option" where
  "parse_send_time_try rt now time_str =
     (if prefix (lit ''za '') time_str then
        (let parts = py_split_ws time_str in
         if 3 \<le> length parts then
           (case py_int rt (parts ! 1) of
              None \<Rightarrow> Inl ValueError
            | Some amount \<Rightarrow>
                (let unit = parts ! 2 in
                 if py_contains (lit ''minut'') unit then now_plus now US_MINUTE amount
                 else if py_contains (lit ''godzin'') unit then now_plus now US_HOUR amount
                 else if py_contains (lit ''dni'') unit then now_plus now US_DAY amount
                 else Inr None))
         else Inr None)
      else if DOT \<in> set time_str \<and> COLON \<in> set time_str then
        (case py_split_ws time_str of
           [date_part, time_part] \<Rightarrow>
             (case map (py_int rt) (py_split DOT date_part) of
                [Some day, Some month, Some year] \<Rightarrow>
                  (case map (py_int rt) (py_split COLON time_part) of
                     [Some hour, Some minute] \<Rightarrow>
                       (case datetime_new year month day hour minute of
                          Inl e \<Rightarrow> Inl e
                        | Inr t \<Rightarrow> Inr (Some t))
                   | _ \<Rightarrow> Inl ValueError)
              | _ \<Rightarrow> Inl ValueError)
         | _ \<Rightarrow> Inl ValueError)
      else if length time_str = 5 \<and> COLON \<in> set time_str then
        (case map (py_int rt) (py_split COLON time_str) of
           [Some hour, Some minute] \<Rightarrow>
             (case replace_hm now hour minute of
                Inl e \<Rightarrow> Inl e
              | Inr target_time \<Rightarrow>
                  if target_time \<le> now
                  then (case datetime_add target_time US_DAY of
                          Inl e \<Rightarrow> Inl e
                        | Inr t \<Rightarrow> Inr (Some t))
                  else Inr (Some target_time))
         | _ \<Rightarrow> Inl ValueError)
      else Inr None)"

definition parse_send_time :: "runtime \<Rightarrow> datetime \<Rightarrow> str \<Rightarrow> error + datetime" where
  "parse_send_time rt now s =
     (let time_str = py_lower rt (py_strip s) in
      case parse_send_time_try rt now time_str of
        Inr (Some t) \<Rightarrow> Inr t
      | Inr None \<Rightarrow> datetime_add now US_HOUR
      | Inl ValueError \<Rightarrow> datetime_add now US_HOUR
      | Inl IndexError \<Rightarrow> datetime_add now US_HOUR
      | Inl e \<Rightarrow> Inl e)"

text \<open>The decimal numeral of a natural number, as \<open>str(n)\<close> writes it.\<close>

fun dec :: "nat \<Rightarrow> str" where
  "dec n = (if n < 10 then [48 + n] else dec (n div 10) @ [48 + n mod 10])"

declare dec.simps [simp del]

text \<open>The value of a run of decimal digits, read from the left.\<close>

definition digits_value :: "nat \<Rightarrow> str \<Rightarrow> nat" where
  "digits_value acc ds = foldl (\<lambda>a c. 10 * a + (c - 48)) acc ds"


section \<open>The job store and the scheduler loop\<close>

text \<open>
  email\_scheduler.py keeps its jobs in the default scheduler of the \<open>schedule\<close> package,
  a list of jobs shared by the whole process. The package is not part of the repository;
  what the program uses of it is modelled here as the package documents it:
  \<^item> \<open>every(n).seconds.do(f, args)\<close> appends a job that is due \<open>n\<close> seconds from now and,
    each time \<open>f\<close> returns, is set to run \<open>n\<close> seconds later again;
  \<open>every().day.at(hh:mm).do(f, args)\<close> appends a job that is due at that time every day;
  \<^item> \<open>tag(t)\<close> adds \<open>t\<close> to the job's set of tags, and \<open>clear(t)\<close> removes the jobs whose set
    of tags has \<open>t\<close> as a member (the tags are compared as whole strings);
  \<^item> \<open>run_pending()\<close> collects the jobs whose \<open>next_run\<close> is not after the clock, sorts
    them by \<open>next_run\<close> and runs each; an exception raised by a job's function leaves
    \<open>run_pending\<close> at once, before that job is set to run again.

  The mail transport is outside the model: \<open>send\<close> says for each mail whether
  \<open>send_email\<close> succeeds (it catches every exception and returns a boolean), and the
  \<open>outbox\<close> lists the mails handed to it, oldest first.
\<close>

record mail =
  to_email :: str
  mail_subject :: str
  mail_body :: str
  html_body :: "str option"
  attachments :: "str list option"

datatype job_func =
    call_send_scheduled_email mail
  | call_send_scheduled_email_once mail

record job =
  job_func :: job_func
  next_run :: datetime
  period :: timedelta
  at_time :: "int option"
  tags :: "str set"

record sched =
  jobs :: "job list"
  outbox :: "mail list"

definition send_email :: "(mail \<Rightarrow> bool) \<Rightarrow> mail \<Rightarrow> sched \<Rightarrow> bool \<times> sched" where
  "send_email send m s = (send m, s\<lparr>outbox := outbox s @ [m]\<rparr>)"

definition clear :: "str \<Rightarrow> job list \<Rightarrow> job list" where
  "clear tag js = filter (\<lambda>j. tag \<notin> tags j) js"

definition once_tag :: "str \<Rightarrow> str" where
  "once_tag email = lit ''once_'' @ email"

text \<open>
  \<open>send_scheduled_email\<close> returns \<open>None\<close> whatever the outcome of the send.
  \<open>send_scheduled_email_once\<close> sends, clears the tag \<open>once_<to_email>\<close> and then raises
  \<open>SystemExit\<close>, after a successful send and after a failed one alike: the result is the
  exception and the store it leaves behind.
\<close>

definition send_scheduled_email :: "(mail \<Rightarrow> bool) \<Rightarrow> mail \<Rightarrow> sched \<Rightarrow> sched" where
  "send_scheduled_email send m s = snd (send_email send m s)"

definition send_scheduled_email_once :: "(mail \<Rightarrow> bool) \<Rightarrow> mail \<Rightarrow> sched \<Rightarrow> error \<times> sched" where
  "send_scheduled_email_once send m s =
     (let (success, s1) = send_email send m s;
          s2 = s1\<lparr>jobs := clear (once_tag (to_email m)) (jobs s1)\<rparr>
      in (SystemExit, s2))"

text \<open>
  \<open>schedule_email_datetime\<close>. \<open>now\<close> is the clock as the function reads it, and \<open>now'\<close>
  the clock as the package reads it a moment later, when \<open>do\<close> computes \<open>next_run\<close>. The
  delay goes through a float of seconds (\<open>float_seconds\<close>), and the addition of the
  package raises an \<open>OverflowError\<close> when \<open>next_run\<close> would lie beyond the year 9999; the
  job is then not appended. \<open>stamp\<close> is the text that the f-string of the tag writes for
  \<open>send_datetime.timestamp()\<close> (a float of the local time zone).
\<close>

definition schedule_email_datetime ::
    "runtime \<Rightarrow> (datetime \<Rightarrow> str) \<Rightarrow> datetime \<Rightarrow> datetime \<Rightarrow> mail \<Rightarrow> datetime \<Rightarrow> sched \<Rightarrow>
     error + sched" where
  "schedule_email_datetime rt stamp now now' m send_datetime s =
     (if send_datetime \<le> now then Inr s
      else
        (let delay = float_seconds rt (send_datetime - now) in
         case datetime_add now' delay of
           Inl e \<Rightarrow> Inl e
         | Inr t \<Rightarrow>
             Inr (s\<lparr>jobs := jobs s @
               [\<lparr>job_func = call_send_scheduled_email_once m,
                 next_run = t,
                 period = delay,
                 at_time = None,
                 tags = {once_tag (to_email m) @ lit ''_'' @ stamp send_datetime}\<rparr>]\<rparr>)))"

text \<open>
  A job that has run is set to run again: a daily job at the next instant after \<open>now\<close>
  that falls on its time of day, any other job one period after \<open>now\<close>.
\<close>

definition schedule_next_run :: "datetime \<Rightarrow> job \<Rightarrow> job" where
  "schedule_next_run now j =
     (case at_time j of
        None \<Rightarrow> j\<lparr>next_run := now + period j\<rparr>
      | Some at \<Rightarrow>
          (let today = now div US_DAY * US_DAY + at
           in j\<lparr>next_run := (if now < today then today else today + US_DAY)\<rparr>))"

definition should_run :: "datetime \<Rightarrow> job \<Rightarrow> bool" where
  "should_run now j \<longleftrightarrow> next_run j \<le> now"

text \<open>
  The job at position \<open>i\<close> of the store runs. The positions that \<open>run_pending\<close> passes are
  positions of the store; they stay so, because a job that returns changes no other job and
  a job that raises ends the round.
\<close>

definition run_job :: "(mail \<Rightarrow> bool) \<Rightarrow> datetime \<Rightarrow> nat \<Rightarrow> sched \<Rightarrow> error option \<times> sched" where
  "run_job send now i s =
     (case job_func (jobs s ! i) of
        call_send_scheduled_email m \<Rightarrow>
          (let s1 = send_scheduled_email send m s
           in (None, s1\<lparr>jobs := (jobs s1)[i := schedule_next_run now (jobs s1 ! i)]\<rparr>))
      | call_send_scheduled_email_once m \<Rightarrow>
          (let (e, s1) = send_scheduled_email_once send m s in (Some e, s1)))"

fun run_jobs :: "(mail \<Rightarrow> bool) \<Rightarrow> datetime \<Rightarrow> nat list \<Rightarrow> sched \<Rightarrow> error option \<times> sched" where
  "run_jobs send now [] s = (None, s)"
| "run_jobs send now (i # rest) s =
     (case run_job send now i s of
        (Some e, s1) \<Rightarrow> (Some e, s1)
      | (None, s1) \<Rightarrow> run_jobs send now rest s1)"

definition runnable :: "datetime \<Rightarrow> job list \<Rightarrow> nat list" where
  "runnable now js =
     sort_key (\<lambda>i. next_run (js ! i)) (filter (\<lambda>i. should_run now (js ! i)) [0..<length js])"

definition run_pending :: "(mail \<Rightarrow> bool) \<Rightarrow> datetime \<Rightarrow> sched \<Rightarrow> error option \<times> sched" where
  "run_pending send now s = run_jobs send now (runnable now (jobs s)) s"

text \<open>
  \<open>run_scheduler\<close> loops for ever (\<open>while True\<close>: run the pending jobs, sleep a minute)
  unless an exception leaves it; a \<open>SystemExit\<close> is logged and raised again. The model is
  given the instants at which the loop reads the clock, one for each round: \<open>Stopped\<close> is
  the exception that left the loop, \<open>Running\<close> is the loop still at work after the last of
  the given rounds.
\<close>

datatype loop = Running sched | Stopped error sched

fun run_scheduler :: "(mail \<Rightarrow> bool) \<Rightarrow> datetime list \<Rightarrow> sched \<Rightarrow> loop" where
  "run_scheduler send [] s = Running s"
| "run_scheduler send (now # ticks) s =
     (case run_pending send now s of
        (Some e, s1) \<Rightarrow> Stopped e s1
      | (None, s1) \<Rightarrow> run_scheduler send ticks s1)"

text \<open>A one-shot job is a job whose function is \<open>send_scheduled_email_once\<close>.\<close>

definition is_once :: "job \<Rightarrow> bool" where
  "is_once j \<longleftrightarrow> (case job_func j of call_send_scheduled_email_once m \<Rightarrow> True | _ \<Rightarrow> False)"


section \<open>The conversation state\<close>

text \<open>
  The state of an \<open>EmailPlanningBot\<close> (telegram\_bot.py): its configuration, its
  \<open>EmailScheduler\<close> with the job store, and the three dictionaries keyed by the user's id.
  The memory of a user is a dictionary whose entries \<open>current_email_plan\<close> and
  \<open>waiting_for\<close> are never written or read after their creation; only its list of
  messages is kept here. The roles are the strings \<open>user\<close>, \<open>assistant\<close>, \<open>system\<close> and
  \<open>function\<close>. A user waits for an attachment exactly when \<open>email_planning_state\<close> has an
  entry for them. \<open>scheduler_threads\<close> counts the background threads started to run the
  scheduler loop, and \<open>saved_files\<close> lists the paths of the attachments written to disk.
\<close>

datatype role = User | Assistant | System | Function

record turn =
  role :: role
  content :: str

record config =
  default_recipient :: "str option"
  max_conversation_history :: "int option"

record bot =
  config :: config
  email_scheduler :: sched
  conversation_memory :: "int \<rightharpoonup> turn list"
  email_planning_state :: "int \<rightharpoonup> str"
  user_emails :: "int \<rightharpoonup> str"
  scheduler_threads :: nat
  saved_files :: "str list"

text \<open>
  What the handlers take from outside: the text of a timestamp (a float), the text of the
  clock in the format \<open>DD.MM.YYYY HH:MM\<close>, the fixed instructions of the request with
  the user's address put in (their wording plays no part here), and the completion
  service, called with or without the list of functions.
\<close>

record ai_message =
  function_call :: "str option"
  ai_content :: "str option"

record env =
  timestamp_text :: "datetime \<Rightarrow> str"
  clock_text :: "datetime \<Rightarrow> str"
  preamble :: "str \<Rightarrow> str"
  complete :: "bool \<Rightarrow> turn list \<Rightarrow> error + ai_message"

definition get_user_memory :: "bot \<Rightarrow> int \<Rightarrow> bot \<times> turn list" where
  "get_user_memory b user_id =
     (case conversation_memory b user_id of
        None \<Rightarrow> (b\<lparr>conversation_memory := (conversation_memory b)(user_id \<mapsto> [])\<rparr>, [])
      | Some messages \<Rightarrow> (b, messages))"

definition get_user_email :: "bot \<Rightarrow> int \<Rightarrow> str" where
  "get_user_email b user_id =
     (case user_emails b user_id of
        Some email \<Rightarrow> email
      | None \<Rightarrow>
          (case default_recipient (config b) of
             Some email \<Rightarrow> email
           | None \<Rightarrow> lit ''borysm32@gmail.com''))"

text \<open>The slice \<open>xs[i:]\<close>: a negative \<open>i\<close> counts from the end, and \<open>xs[-0:]\<close> is \<open>xs[0:]\<close>.\<close>

definition slice_from :: "int \<Rightarrow> 'a list \<Rightarrow> 'a list" where
  "slice_from i xs =
     (if 0 \<le> i then drop (nat i) xs else drop (nat (int (length xs) + i)) xs)"

text \<open>The configured cap of the history, ten when the configuration has none.\<close>

definition max_history :: "bot \<Rightarrow> int" where
  "max_history b =
     (case max_conversation_history (config b) of Some n \<Rightarrow> n | None \<Rightarrow> 10)"

definition add_to_memory :: "bot \<Rightarrow> int \<Rightarrow> role \<Rightarrow> str \<Rightarrow> bot" where
  "add_to_memory b user_id r c =
     (let (b1, messages) = get_user_memory b user_id;
          appended = messages @ [\<lparr>role = r, content = c\<rparr>];
          kept =
            (if max_history b1 < int (length appended)
             then slice_from (- max_history b1) appended
             else appended)
      in b1\<lparr>conversation_memory := (conversation_memory b1)(user_id \<mapsto> kept)\<rparr>)"

definition get_conversation_context :: "env \<Rightarrow> bot \<Rightarrow> int \<Rightarrow> bot \<times> turn list" where
  "get_conversation_context e b user_id =
     (let (b1, messages) = get_user_memory b user_id;
          user_email = get_user_email b1 user_id
      in (b1, \<lparr>role = System, content = preamble e user_email\<rparr> # messages))"

text \<open>
  The first steps of \<open>analyze_message_with_ai\<close> for a message that is not blank: the
  message is added to the memory, the context is built, and the messages without content
  are dropped from it. \<open>request_context\<close> is what is sent to the completion service.
\<close>

definition request_context :: "env \<Rightarrow> bot \<Rightarrow> int \<Rightarrow> str \<Rightarrow> bot \<times> turn list" where
  "request_context e b user_id message_text =
     (let b1 = add_to_memory b user_id User message_text;
          (b2, context) = get_conversation_context e b1 user_id
      in (b2, filter (\<lambda>msg. content msg \<noteq> []) context))"

definition function_result :: "env \<Rightarrow> datetime \<Rightarrow> bot \<Rightarrow> int \<Rightarrow> str \<Rightarrow> turn list" where
  "function_result e now b user_id function_name =
     (if function_name = lit ''get_actual_datetime''
      then [\<lparr>role = Function, content = lit ''Aktualna data i godzina: '' @ clock_text e now\<rparr>]
      else if function_name = lit ''get_user_email''
      then [\<lparr>role = Function,
             content = lit ''Aktualny email u'' @ [380] @ lit ''ytkownika: '' @
               get_user_email b user_id\<rparr>]
      else [])"

definition analyze_message_with_ai :: "env \<Rightarrow> datetime \<Rightarrow> bot \<Rightarrow> int \<Rightarrow> str \<Rightarrow> bot \<times> str" where
  "analyze_message_with_ai e now b user_id message_text =
     (if message_text = [] \<or> py_strip message_text = [] then
        (b, lit ''Nie otrzymalem zadnej wiadomosci. Napisz cos lub nagraj wiadomosc glosowa.'')
      else
        (let (b2, clean_context) = request_context e b user_id message_text;
             failed = lit
               ''Przepraszam, wystapil blad podczas analizy wiadomosci. Sprobuj ponownie.'';
             silent = lit ''Nie otrzymalem odpowiedzi od AI. Sprobuj ponownie.''
         in if clean_context = [] then
              (b2, lit ''Nie moge przetworzyc tej wiadomosci. Sprobuj ponownie.'')
            else
              (case complete e True clean_context of
                 Inl err \<Rightarrow> (b2, failed)
               | Inr message \<Rightarrow>
                   (case (case function_call message of
                            None \<Rightarrow> Inr message
                          | Some function_name \<Rightarrow>
                              complete e False
                                (clean_context @ function_result e now b2 user_id function_name))
                    of
                      Inl err \<Rightarrow> (b2, failed)
                    | Inr final \<Rightarrow>
                        (case ai_content final of
                           None \<Rightarrow> (b2, silent)
                         | Some ai_response \<Rightarrow>
                             if ai_response = [] then (b2, silent)
                             else (add_to_memory b2 user_id Assistant ai_response,
                                   ai_response))))))"

section \<open>Scheduling a plan and receiving an attachment\<close>

text \<open>
  The replies of the handlers are long texts of the source; each constructor stands for
  one of them: the confirmation of \<open>schedule_email_from_ai\<close> (subject, recipient, instant
  and the first hundred characters of the body), its report of an exception, the three
  replies of \<open>handle_document\<close> (no attachment is expected; the attachment was received,
  now describe the email; an error while the attachment was handled), and the replies of
  \<open>handle_text_message\<close> (no message was received; the request for an attachment with
  its text; the answer of the assistant as it is).
\<close>

datatype reply =
    reply_scheduled str str datetime str
  | reply_schedule_error error
  | reply_not_expected
  | reply_attachment_received
  | reply_attachment_error
  | reply_no_message
  | reply_attachment_request str
  | reply_text str

text \<open>
  \<open>schedule_email_from_ai\<close>. The clock is read in \<open>parse_send_time\<close> (\<open>now\<close>), in
  \<open>schedule_email_datetime\<close> (\<open>now1\<close>) and by the package (\<open>now2\<close>). Every exception of
  its body is caught and reported in the reply, and the state is then as it was; in the
  model these are the \<open>OverflowError\<close> of \<open>parse_send_time\<close> and of the registration.
  \<open>schedule_email_datetime\<close> returns nothing, so the confirmation does not depend on
  whether a job was registered.
\<close>

definition schedule_email_from_ai ::
    "runtime \<Rightarrow> env \<Rightarrow> datetime \<Rightarrow> datetime \<Rightarrow> datetime \<Rightarrow> bot \<Rightarrow> int \<Rightarrow> email_data \<Rightarrow>
     str option \<Rightarrow> bot \<times> reply" where
  "schedule_email_from_ai rt e now now1 now2 b user_id d attachment_path =
     (case parse_send_time rt now (send_time d) of
        Inl err \<Rightarrow> (b, reply_schedule_error err)
      | Inr send_datetime \<Rightarrow>
          (let user_email = get_user_email b user_id;
               m = \<lparr>to_email = user_email, mail_subject = subject d, mail_body = body d,
                    html_body = None,
                    attachments =
                      (case attachment_path of
                         None \<Rightarrow> None
                       | Some p \<Rightarrow> if p = [] then None else Some [p])\<rparr>
           in case schedule_email_datetime rt (timestamp_text e) now1 now2 m send_datetime
                     (email_scheduler b) of
                Inl err \<Rightarrow> (b, reply_schedule_error err)
              | Inr store \<Rightarrow>
                  (let b1 = b\<lparr>email_scheduler := store\<rparr>;
                       b2 = b1\<lparr>scheduler_threads := scheduler_threads b1 + 1\<rparr>;
                       b3 = b2\<lparr>email_planning_state :=
                              (email_planning_state b2)(user_id := None)\<rparr>
                   in (b3, reply_scheduled (subject d) user_email send_datetime
                         (take 100 (body d) @
                          (if 100 < length (body d) then lit ''...'' else []))))))"

definition str_int :: "int \<Rightarrow> str" where
  "str_int i = (if i < 0 then 45 # dec (nat (- i)) else dec (nat i))"

definition last_assistant_message :: "turn list \<Rightarrow> str option" where
  "last_assistant_message messages =
     map_option content (find (\<lambda>msg. role msg = Assistant) (rev messages))"

text \<open>
  \<open>handle_document\<close>. \<open>fetched\<close> says whether the file could be fetched and written to
  disk; \<open>t\<close> is the clock read for the name of the file, and \<open>now\<close>, \<open>now1\<close>, \<open>now2\<close> are
  the readings of \<open>schedule_email_from_ai\<close>. The last message of the
  assistant is looked up with \<open>startswith\<close> on the text as it was stored. When
  \<open>parse_ai_response\<close> returns \<open>None\<close>, unpacking it raises a \<open>TypeError\<close>, which the handler
  reports as an error of the attachment; a dictionary without \<open>send_time\<close> would raise a
  \<open>KeyError\<close> inside \<open>schedule_email_from_ai\<close>.
\<close>

definition attachment_path :: "env \<Rightarrow> datetime \<Rightarrow> int \<Rightarrow> str \<Rightarrow> str" where
  "attachment_path e now user_id file_name =
     lit ''attachments/attachment_'' @ str_int user_id @ lit ''_'' @ timestamp_text e now @
     lit ''_'' @ file_name"

definition handle_document ::
    "runtime \<Rightarrow> env \<Rightarrow> datetime \<Rightarrow> datetime \<Rightarrow> datetime \<Rightarrow> datetime \<Rightarrow> bot \<Rightarrow> int \<Rightarrow> str \<Rightarrow>
     bool \<Rightarrow> bot \<times> reply" where
  "handle_document rt e t now now1 now2 b user_id file_name fetched =
     (if email_planning_state b user_id = None then (b, reply_not_expected)
      else if \<not> fetched then (b, reply_attachment_error)
      else
        (let path = attachment_path e t user_id file_name;
             b1 = b\<lparr>saved_files := saved_files b @ [path]\<rparr>;
             (b2, messages) = get_user_memory b1 user_id
         in case last_assistant_message messages of
              None \<Rightarrow> (b2, reply_attachment_received)
            | Some msg \<Rightarrow>
                if msg \<noteq> [] \<and> prefix GOTOWE msg then
                  (case parse_ai_response msg of
                     None \<Rightarrow> (b2, reply_attachment_error)
                   | Some (schedule_email d) \<Rightarrow>
                       schedule_email_from_ai rt e now now1 now2 b2 user_id d (Some path)
                   | Some other \<Rightarrow> (b2, reply_schedule_error KeyError))
                else (b2, reply_attachment_received)))"

text \<open>
  \<open>handle_text_message\<close>: the answer of the assistant is parsed and dispatched. A
  \<open>schedule_email\<close> is scheduled at once, without any file; a \<open>request_attachment\<close> is
  stored in \<open>email_planning_state\<close>, which is how a user comes to await an attachment.
  When \<open>parse_ai_response\<close> returns \<open>None\<close>, unpacking it raises a \<open>TypeError\<close> that the
  handler does not catch. \<open>t\<close> is the clock read for the assistant's function.
\<close>

definition handle_text_message ::
    "runtime \<Rightarrow> env \<Rightarrow> datetime \<Rightarrow> datetime \<Rightarrow> datetime \<Rightarrow> datetime \<Rightarrow> bot \<Rightarrow> int \<Rightarrow> str \<Rightarrow>
     bot \<times> (error + reply)" where
  "handle_text_message rt e t now now1 now2 b user_id message_text =
     (if message_text = [] \<or> py_strip message_text = [] then (b, Inr reply_no_message)
      else
        (let (b1, ai_response) = analyze_message_with_ai e t b user_id message_text in
         case parse_ai_response ai_response of
           None \<Rightarrow> (b1, Inl TypeError)
         | Some (schedule_email d) \<Rightarrow>
             (let (b2, r) = schedule_email_from_ai rt e now now1 now2 b1 user_id d None
              in (b2, Inr r))
         | Some (request_attachment info) \<Rightarrow>
             (b1\<lparr>email_planning_state := (email_planning_state b1)(user_id \<mapsto> info)\<rparr>,
              Inr (reply_attachment_request info))
         | Some (text_response message) \<Rightarrow> (b1, Inr (reply_text ai_response))))"

section \<open>Examples\<close>

text \<open>Concrete values for the evaluations below.\<close>

definition example_runtime :: runtime where
  "example_runtime =
     \<lparr>lower_at = (\<lambda>s i. [s ! i]), decimal_value = (\<lambda>c. None), max_str_digits = 4300,
      float_seconds = (\<lambda>d. d)\<rparr>"

definition example_mail :: mail where
  "example_mail =
     \<lparr>to_email = lit ''a@b.pl'', mail_subject = lit ''Raport'', mail_body = lit ''W zalaczniku'',
      html_body = None, attachments = None\<rparr>"

definition example_store :: sched where
  "example_store =
     \<lparr>jobs =
        [\<lparr>job_func = call_send_scheduled_email_once example_mail,
          next_run = mk_datetime 2024 1 1 11 0,
          period = US_HOUR,
          at_time = None,
          tags = {lit ''once_a@b.pl_1704103200.0''}\<rparr>],
      outbox = []\<rparr>"

definition example_env :: env where
  "example_env =
     \<lparr>timestamp_text = (\<lambda>t. lit ''1704103200.0''),
      clock_text = (\<lambda>t. lit ''01.01.2024 10:00''),
      preamble = (\<lambda>email. lit ''Zawsze wysylaj emaile na adres: '' @ email),
      complete = (\<lambda>functions context.
        Inr \<lparr>function_call = None, ai_content = Some (lit ''Dobrze'')\<rparr>)\<rparr>"

definition example_bot :: bot where
  "example_bot =
     \<lparr>config = \<lparr>default_recipient = Some (lit ''a@b.pl''), max_conversation_history = Some 10\<rparr>,
      email_scheduler = \<lparr>jobs = [], outbox = []\<rparr>,
      conversation_memory = Map.empty,
      email_planning_state = Map.empty,
      user_emails = Map.empty,
      scheduler_threads = 0,
      saved_files = []\<rparr>"

text \<open>
  An assistant that asks for the attachment when the user's last message is
  \<open>dodaj plik\<close> and answers every other message with a complete plan.
\<close>

definition example_dialogue :: env where
  "example_dialogue =
     example_env\<lparr>complete := (\<lambda>functions context.
       Inr \<lparr>function_call = None,
            ai_content = Some
              (if content (last context) = lit ''dodaj plik''
               then ZALACZNIK @ lit '' Wyslij plik''
               else lit ''GOTOWE: Raport|W zalaczniku|za 30 minut'')\<rparr>)\<rparr>"

text \<open>
  A dialogue in which user 7 has a report planned at 10:00 and then asks for a file to be
  added: the state after the first message and the state after the second.
\<close>

definition example_planned :: bot where
  "example_planned =
     fst (handle_text_message example_runtime example_dialogue (mk_datetime 2024 1 1 10 0)
       (mk_datetime 2024 1 1 10 0) (mk_datetime 2024 1 1 10 0) (mk_datetime 2024 1 1 10 0)
       example_bot 7 (lit ''wyslij raport za 30 minut''))"

definition example_waiting :: bot where
  "example_waiting =
     fst (handle_text_message example_runtime example_dialogue (mk_datetime 2024 1 1 10 1)
       (mk_datetime 2024 1 1 10 1) (mk_datetime 2024 1 1 10 1) (mk_datetime 2024 1 1 10 1)
       example_planned 7 (lit ''dodaj plik''))"

definition example_short_bot :: "int \<Rightarrow> bot" where
  "example_short_bot n =
     example_bot\<lparr>config := \<lparr>default_recipient = None, max_conversation_history = Some n\<rparr>\<rparr>"


section \<open>Facts about the text functions\<close>

lemma count_list_dropWhile:
  "\<not> P c \<Longrightarrow> count_list (dropWhile P s) c = count_list s c"
  by (induction s) auto

lemma count_list_rev: "count_list (rev s) c = count_list s c"
  by (induction s) auto

lemma count_list_py_strip:
  "\<not> isspace c \<Longrightarrow> count_list (py_strip s) c = count_list s c"
  by (simp add: py_strip_def count_list_rev count_list_dropWhile)

lemma count_list_drop_prefix:
  assumes "prefix old s" "c \<notin> set old"
  shows "count_list (drop (length old) s) c = count_list s c"
proof -
  from assms(1) obtain t where s: "s = old @ t"
    by (auto simp: prefix_def)
  from assms(2) have "count_list old c = 0"
    by (simp add: count_list_0_iff)
  with s show ?thesis by simp
qed

lemma count_list_py_replace_aux:
  "c \<notin> set old \<Longrightarrow> new = [] \<Longrightarrow> count_list (py_replace old new s) c = count_list s c"
proof (induction old new s rule: py_replace.induct)
  case (1 old new)
  then show ?case by simp
next
  case (2 old new d ds)
  show ?case
  proof (cases "old \<noteq> [] \<and> prefix old (d # ds)")
    case True
    have a: "count_list (drop (length old) (d # ds)) c = count_list (d # ds) c"
      using True "2.prems"(1) by (intro count_list_drop_prefix) simp_all
    from True have b: "drop (length old) (d # ds) = drop (length old - 1) ds"
      by (cases old) simp_all
    have ih: "count_list (py_replace old new (drop (length old - 1) ds)) c =
        count_list (drop (length old - 1) ds) c"
      using "2.IH"(1) [OF True "2.prems"] .
    have "py_replace old new (d # ds) = py_replace old new (drop (length old - 1) ds)"
      using True "2.prems"(2) by simp
    with ih a b show ?thesis by simp
  next
    case False
    have ih: "count_list (py_replace old new ds) c = count_list ds c"
      using "2.IH"(2) [OF False "2.prems"] .
    have "py_replace old new (d # ds) = d # py_replace old new ds"
      using False by auto
    with ih show ?thesis by simp
  qed
qed

lemma count_list_py_replace:
  "c \<notin> set old \<Longrightarrow> count_list (py_replace old [] s) c = count_list s c"
  by (rule count_list_py_replace_aux) simp_all

lemma py_split_not_Nil: "py_split sep s \<noteq> []"
  by (induction s) (auto split: list.splits)

lemma length_py_split: "length (py_split sep s) = count_list s sep + 1"
  by (induction s) (auto split: list.splits simp: py_split_not_Nil)

lemma not_isspace_PIPE: "\<not> isspace PIPE"
  by (simp add: isspace_def)

lemma PIPE_notin_GOTOWE: "PIPE \<notin> set GOTOWE"
  by (simp add: GOTOWE_def lit_def)

lemma ready_field_count:
  "length (py_split PIPE (py_strip (py_replace GOTOWE [] (py_strip r)))) = count_list r PIPE + 1"
  by (simp add: length_py_split count_list_py_strip not_isspace_PIPE
      count_list_py_replace PIPE_notin_GOTOWE)

section \<open>Facts about integers, dates and the time parser\<close>

lemmas evals = lit_def py_strip_def py_lower_def lower_cp_def isspace_def int_space_def
  digit_of_def too_many_digits_def int_unsigned_def py_int_def timedelta_def datetime_add_def
  is_leap_def days_in_month_def days_before_year_def days_before_month_def ymd2ord_def
  mk_datetime_def c_int_def datetime_new_def replace_hm_def now_plus_def
  parse_send_time_try_def parse_send_time_def example_runtime_def Let_def

lemma datetime_add_Inr: "datetime_add t d = Inr r \<Longrightarrow> r = t + d"
  by (simp add: datetime_add_def split: if_splits)


lemma timedelta_Inr: "timedelta unit amount = Inr d \<Longrightarrow> d = amount * unit"
  by (simp add: timedelta_def Let_def split: if_splits)


lemma now_plus_Inr: "now_plus now unit amount = Inr r \<Longrightarrow> r = Some (now + amount * unit)"
  by (auto simp: now_plus_def split: sum.splits dest: timedelta_Inr datetime_add_Inr)







lemma parse_send_time_try_relative:
  assumes "parse_send_time_try rt now ts = Inr (Some t)" "prefix (lit ''za '') ts"
  shows "\<exists>n. py_int rt (py_split_ws ts ! 1) = Some n \<and>
           (t = now + n * US_MINUTE \<or> t = now + n * US_HOUR \<or> t = now + n * US_DAY)"
  using assms unfolding parse_send_time_try_def Let_def
  by (auto split: if_splits option.splits dest!: now_plus_Inr)



lemma dec_digits: "c \<in> set (dec n) \<Longrightarrow> 48 \<le> c \<and> c \<le> 57"
proof (induction n arbitrary: c rule: dec.induct)
  case (1 n)
  show ?case
  proof (cases "n < 10")
    case True
    with "1.prems" show ?thesis by (simp add: dec.simps [of n])
  next
    case False
    have "n mod 10 < 10" by simp
    with False "1.prems" "1.IH" show ?thesis
      by (auto simp: dec.simps [of n])
  qed
qed

lemma dec_not_Nil: "dec n \<noteq> []"
  by (subst dec.simps) simp

lemma digit_not_space: "48 \<le> c \<and> c \<le> 57 \<Longrightarrow> \<not> isspace c \<and> \<not> int_space c"
  by (simp add: isspace_def int_space_def)

lemma digit_lower: "48 \<le> c \<and> c \<le> 57 \<Longrightarrow> lower_cp c = c"
  by (simp add: lower_cp_def)

lemma lower_from_latin1:
  "(\<And>c. c \<in> set cs \<Longrightarrow> c \<le> 255) \<Longrightarrow> lower_from rt s i cs = map lower_cp cs"
  by (induction cs arbitrary: i) simp_all

lemma py_lower_latin1:
  "(\<And>c. c \<in> set s \<Longrightarrow> c \<le> 255) \<Longrightarrow> py_lower rt s = map lower_cp s"
  unfolding py_lower_def by (rule lower_from_latin1)

lemma digit_of_digit: "48 \<le> c \<and> c \<le> 57 \<Longrightarrow> digit_of rt c = Some (c - 48)"
  by (simp add: digit_of_def)

lemma int_digits_digits:
  "(\<And>c. c \<in> set ds \<Longrightarrow> 48 \<le> c \<and> c \<le> 57) \<Longrightarrow>
     int_digits rt acc ds = Some (digits_value acc ds)"
proof (induction ds arbitrary: acc)
  case Nil
  then show ?case by (simp add: digits_value_def)
next
  case (Cons d ds)
  then have "digit_of rt d = Some (d - 48)" by (simp add: digit_of_digit)
  with Cons show ?case by (simp add: digits_value_def)
qed

lemma digits_value_dec: "digits_value 0 (dec n) = n"
proof (induction n rule: dec.induct)
  case (1 n)
  show ?case
  proof (cases "n < 10")
    case True
    then show ?thesis by (simp add: dec.simps [of n] digits_value_def)
  next
    case False
    with "1.IH" have "digits_value 0 (dec (n div 10)) = n div 10" by simp
    with False show ?thesis
      by (simp add: dec.simps [of n] digits_value_def)
  qed
qed

lemma length_dec: "n < 10 ^ k \<Longrightarrow> 0 < k \<Longrightarrow> length (dec n) \<le> k"
proof (induction k arbitrary: n)
  case 0
  then show ?case by simp
next
  case (Suc k)
  show ?case
  proof (cases "n < 10")
    case True
    then show ?thesis by (simp add: dec.simps [of n])
  next
    case False
    with Suc.prems have k: "0 < k" by (cases k) auto
    from Suc.prems have "n div 10 < 10 ^ k"
      by (simp add: less_mult_imp_div_less mult.commute)
    from Suc.IH [OF this k] False show ?thesis
      by (simp add: dec.simps [of n])
  qed
qed

lemma not_too_many_digits: "length s \<le> 640 \<Longrightarrow> \<not> too_many_digits rt s"
proof -
  assume "length s \<le> 640"
  moreover have "length (filter (\<lambda>c. digit_of rt c \<noteq> None) s) \<le> length s"
    by (rule length_filter_le)
  ultimately have "\<not> 640 < length (filter (\<lambda>c. digit_of rt c \<noteq> None) s)"
    by linarith
  then show ?thesis
    unfolding too_many_digits_def by (metis max_less_iff_conj)
qed

lemma int_unsigned_dec:
  assumes "length (dec n) \<le> 640"
  shows "int_unsigned rt (dec n) = Some n"
proof -
  obtain c cs where d: "dec n = c # cs"
    using dec_not_Nil [of n] by (cases "dec n") auto
  have all: "\<And>x. x \<in> set (c # cs) \<Longrightarrow> 48 \<le> x \<and> x \<le> 57"
    using dec_digits [of _ n] d by simp
  then have c: "digit_of rt c = Some (c - 48)" by (simp add: digit_of_digit)
  have "int_digits rt (c - 48) cs = Some (digits_value (c - 48) cs)"
    using all by (intro int_digits_digits) simp
  moreover have "digits_value (c - 48) cs = digits_value 0 (c # cs)"
    by (simp add: digits_value_def)
  moreover have "\<not> too_many_digits rt (c # cs)"
    using assms d not_too_many_digits [of "dec n" rt] by simp
  ultimately show ?thesis
    using c d digits_value_dec [of n] by (simp add: int_unsigned_def)
qed

lemma dropWhile_id: "xs = [] \<or> \<not> P (hd xs) \<Longrightarrow> dropWhile P xs = xs"
  by (cases xs) auto

lemma strip_id:
  assumes "s \<noteq> []" "\<not> P (hd s)" "\<not> P (last s)"
  shows "rev (dropWhile P (rev (dropWhile P s))) = s"
proof -
  from assms have "dropWhile P s = s" by (simp add: dropWhile_id)
  moreover from assms have "dropWhile P (rev s) = rev s"
    by (intro dropWhile_id) (simp add: hd_rev)
  ultimately show ?thesis by simp
qed

lemma py_int_dec:
  assumes "length (dec n) \<le> 640"
  shows "py_int rt (dec n) = Some (int n)"
proof -
  obtain c cs where d: "dec n = c # cs"
    using dec_not_Nil [of n] by (cases "dec n") auto
  have dig: "\<And>x. x \<in> set (dec n) \<Longrightarrow> 48 \<le> x \<and> x \<le> 57"
    using dec_digits by blast
  have "hd (dec n) \<in> set (dec n)" "last (dec n) \<in> set (dec n)"
    using dec_not_Nil by simp_all
  then have "\<not> int_space (hd (dec n))" "\<not> int_space (last (dec n))"
    using dig digit_not_space by blast+
  then have s: "rev (dropWhile int_space (rev (dropWhile int_space (dec n)))) = dec n"
    using dec_not_Nil by (intro strip_id)
  have "c \<in> set (dec n)" using d by simp
  then have "48 \<le> c" using dig by blast
  then have "c \<noteq> 45" "c \<noteq> 43" by simp_all
  then show ?thesis
    using s d int_unsigned_dec [OF assms, of rt] by (simp add: py_int_def)
qed

lemma py_split_ws_word:
  assumes "w \<noteq> []" "\<And>c. c \<in> set w \<Longrightarrow> \<not> isspace c" "isspace sp"
  shows "py_split_ws (w @ sp # rest) = w # py_split_ws rest"
  using assms
proof (induction w)
  case Nil
  then show ?case by simp
next
  case (Cons c w)
  show ?case
  proof (cases "w = []")
    case True
    with Cons.prems show ?thesis by simp
  next
    case False
    then have "hd (w @ sp # rest) = hd w" "hd w \<in> set w" by simp_all
    then have "\<not> isspace (hd (w @ sp # rest))" using Cons.prems(2) by simp
    moreover have "py_split_ws (w @ sp # rest) = w # py_split_ws rest"
      using Cons.IH False Cons.prems by simp
    ultimately show ?thesis using Cons.prems(2) [of c] by simp
  qed
qed

lemma py_split_ws_single:
  assumes "w \<noteq> []" "\<And>c. c \<in> set w \<Longrightarrow> \<not> isspace c"
  shows "py_split_ws w = [w]"
  using assms
proof (induction w)
  case Nil
  then show ?case by simp
next
  case (Cons c w)
  show ?case
  proof (cases "w = []")
    case True
    with Cons.prems show ?thesis by simp
  next
    case False
    then have "hd w \<in> set w" by simp
    then have "\<not> isspace (hd w)" using Cons.prems(2) by simp
    moreover have "py_split_ws w = [w]"
      using Cons.IH False Cons.prems by simp
    ultimately show ?thesis using False Cons.prems(2) [of c] by simp
  qed
qed

lemma dec_not_space: "c \<in> set (dec n) \<Longrightarrow> \<not> isspace c"
  using dec_digits digit_not_space by blast

lemma relative_parts:
  assumes "w \<noteq> []" "\<And>c. c \<in> set w \<Longrightarrow> \<not> isspace c"
  shows "py_split_ws (lit ''za '' @ dec n @ 32 # w) = [lit ''za'', dec n, w]"
proof -
  have "py_split_ws (dec n @ 32 # w) = dec n # py_split_ws w"
  proof (rule py_split_ws_word)
    show "dec n \<noteq> []" by (rule dec_not_Nil)
    show "\<not> isspace c" if "c \<in> set (dec n)" for c using that by (rule dec_not_space)
    show "isspace 32" by (simp add: isspace_def)
  qed
  moreover have "dec n @ 32 # w \<noteq> []" "\<not> isspace (hd (dec n @ 32 # w))"
    using dec_not_Nil [of n] dec_not_space [of "hd (dec n)" n] by simp_all
  ultimately show ?thesis
    using py_split_ws_single [OF assms] by (simp add: lit_def isspace_def)
qed

lemma relative_text:
  assumes "w \<noteq> []" "\<And>c. c \<in> set w \<Longrightarrow> 97 \<le> c \<and> c \<le> 122"
  shows "py_lower rt (py_strip (lit ''za '' @ dec n @ 32 # w)) = lit ''za '' @ dec n @ 32 # w"
proof -
  let ?s = "lit ''za '' @ dec n @ 32 # w"
  have "last w \<in> set w" using assms(1) by simp
  then have "\<not> isspace (last w)" using assms(2) [of "last w"] by (simp add: isspace_def)
  then have "?s \<noteq> []" "\<not> isspace (hd ?s)" "\<not> isspace (last ?s)"
    using assms(1) by (simp_all add: lit_def isspace_def)
  then have strip: "py_strip ?s = ?s"
    unfolding py_strip_def by (intro strip_id)
  have low: "lower_cp c = c" "c \<le> 255" if "c \<in> set ?s" for c
  proof -
    from that consider "c \<in> set (lit ''za '')" | "c \<in> set (dec n)" | "c = 32" | "c \<in> set w"
      by auto
    then have "(c = 122 \<or> c = 97 \<or> c = 32) \<or> (48 \<le> c \<and> c \<le> 57) \<or> (97 \<le> c \<and> c \<le> 122)"
      using dec_digits [of c n] assms(2) [of c] by cases (auto simp: lit_def)
    then show "lower_cp c = c" "c \<le> 255"
      by (auto simp: lower_cp_def)
  qed
  have "py_lower rt ?s = map lower_cp ?s"
    using low(2) by (intro py_lower_latin1)
  also have "\<dots> = ?s"
    using low(1) by (intro map_idI)
  finally show ?thesis using strip by simp
qed

lemma now_plus_in_range:
  assumes "0 \<le> now" "0 \<le> a" "0 < unit" "now + a * unit < MAX_US"
  shows "now_plus now unit a = Inr (Some (now + a * unit))"
proof -
  have nn: "0 \<le> a * unit" using assms by simp
  then have lo: "0 \<le> a * unit div US_DAY" by simp
  have "a * unit < 3652059 * US_DAY" using assms by simp
  then have "a * unit div US_DAY < 3652059" by (simp add: div_less_iff_less_mult)
  with lo have "timedelta unit a = Inr (a * unit)"
    by (simp add: timedelta_def)
  moreover have "datetime_add now (a * unit) = Inr (now + a * unit)"
    using assms nn by (simp add: datetime_add_def)
  ultimately show ?thesis by (simp add: now_plus_def)
qed


section \<open>Facts about the scheduler\<close>

lemmas sched_evals = send_email_def clear_def once_tag_def send_scheduled_email_def
  send_scheduled_email_once_def schedule_email_datetime_def schedule_next_run_def
  should_run_def run_job_def runnable_def run_pending_def is_once_def

lemma send_scheduled_email_once_SystemExit:
  "fst (send_scheduled_email_once send m s) = SystemExit"
  by (simp add: send_scheduled_email_once_def send_email_def)

lemma schedule_next_run_job_func [simp]: "job_func (schedule_next_run now j) = job_func j"
  by (simp add: schedule_next_run_def Let_def split: option.splits)

lemma is_once_schedule_next_run [simp]: "is_once (schedule_next_run now j) = is_once j"
  by (simp add: is_once_def)

lemma run_job_once:
  assumes "is_once (jobs s ! i)"
  shows "\<exists>m. job_func (jobs s ! i) = call_send_scheduled_email_once m \<and>
     run_job send now i s = (Some SystemExit, snd (send_scheduled_email_once send m s))"
proof -
  from assms obtain m where m: "job_func (jobs s ! i) = call_send_scheduled_email_once m"
    by (cases "job_func (jobs s ! i)") (auto simp: is_once_def)
  then have "run_job send now i s = (Some SystemExit, snd (send_scheduled_email_once send m s))"
    by (simp add: run_job_def send_scheduled_email_once_def send_email_def)
  with m show ?thesis by blast
qed

lemma run_job_daily:
  assumes "\<not> is_once (jobs s ! i)"
  shows "\<exists>j out. \<not> is_once j \<and> prefix (outbox s) out \<and>
     run_job send now i s = (None, \<lparr>jobs = (jobs s)[i := j], outbox = out\<rparr>)"
proof -
  from assms obtain m where m: "job_func (jobs s ! i) = call_send_scheduled_email m"
    by (cases "job_func (jobs s ! i)") (auto simp: is_once_def)
  let ?j = "schedule_next_run now (jobs s ! i)"
  have "\<not> is_once ?j" using assms by simp
  moreover have "run_job send now i s = (None, \<lparr>jobs = (jobs s)[i := ?j], outbox = outbox s @ [m]\<rparr>)"
    using m by (simp add: run_job_def send_scheduled_email_def send_email_def)
  moreover have "prefix (outbox s) (outbox s @ [m])" by simp
  ultimately show ?thesis by blast
qed

lemma filter_list_update_other:
  "\<not> P (xs ! i) \<Longrightarrow> \<not> P y \<Longrightarrow> filter P (xs[i := y]) = filter P xs"
proof (induction xs arbitrary: i)
  case Nil
  then show ?case by simp
next
  case (Cons x xs)
  then show ?case by (cases i) simp_all
qed

text \<open>
  A run of \<open>run_jobs\<close> over positions of the store either returns, and then none of the
  positions held a one-shot job and the one-shot jobs of the store are as they were, or it
  is left by the \<open>SystemExit\<close> of the first one-shot job among the positions, whose
  action ran on a store that still held every one-shot job.
\<close>

lemma run_jobs_cases:
  assumes "\<And>i. i \<in> set ps \<Longrightarrow> i < length (jobs s)"
  shows "(\<exists>s'. run_jobs send now ps s = (None, s') \<and>
            (\<forall>i \<in> set ps. \<not> is_once (jobs s ! i)) \<and>
            filter is_once (jobs s') = filter is_once (jobs s) \<and>
            prefix (outbox s) (outbox s')) \<or>
         (\<exists>i m mid. i \<in> set ps \<and>
            job_func (jobs s ! i) = call_send_scheduled_email_once m \<and>
            filter is_once (jobs mid) = filter is_once (jobs s) \<and>
            prefix (outbox s) (outbox mid) \<and>
            run_jobs send now ps s =
              (Some SystemExit, snd (send_scheduled_email_once send m mid)))"
  using assms
proof (induction ps arbitrary: s)
  case Nil
  then show ?case by simp
next
  case (Cons p ps)
  show ?case
  proof (cases "is_once (jobs s ! p)")
    case True
    from run_job_once [OF True] obtain m where
      "job_func (jobs s ! p) = call_send_scheduled_email_once m"
      "run_job send now p s = (Some SystemExit, snd (send_scheduled_email_once send m s))"
      by blast
    then have "p \<in> set (p # ps) \<and>
        job_func (jobs s ! p) = call_send_scheduled_email_once m \<and>
        filter is_once (jobs s) = filter is_once (jobs s) \<and>
        prefix (outbox s) (outbox s) \<and>
        run_jobs send now (p # ps) s =
          (Some SystemExit, snd (send_scheduled_email_once send m s))"
      by simp
    then show ?thesis by blast
  next
    case False
    from run_job_daily [OF False] obtain j out where
      j: "\<not> is_once j" and out: "prefix (outbox s) out" and
      r: "run_job send now p s = (None, \<lparr>jobs = (jobs s)[p := j], outbox = out\<rparr>)"
      by blast
    let ?s1 = "\<lparr>jobs = (jobs s)[p := j], outbox = out\<rparr>"
    have step: "run_jobs send now (p # ps) s = run_jobs send now ps ?s1"
      using r by simp
    have f: "filter is_once (jobs ?s1) = filter is_once (jobs s)"
      using False j by (simp add: filter_list_update_other)
    have same: "is_once (jobs ?s1 ! i) \<Longrightarrow> jobs ?s1 ! i = jobs s ! i" for i
      using j Cons.prems [of p] by (cases "i = p") simp_all
    have other: "\<not> is_once (jobs ?s1 ! i) \<Longrightarrow> \<not> is_once (jobs s ! i)" for i
      using False by (cases "i = p") simp_all
    have "\<And>i. i \<in> set ps \<Longrightarrow> i < length (jobs ?s1)"
      using Cons.prems by simp
    from Cons.IH [OF this] consider
      (returns) s' where "run_jobs send now ps ?s1 = (None, s')"
        "\<forall>i \<in> set ps. \<not> is_once (jobs ?s1 ! i)"
        "filter is_once (jobs s') = filter is_once (jobs ?s1)"
        "prefix (outbox ?s1) (outbox s')" |
      (raises) i m mid where "i \<in> set ps"
        "job_func (jobs ?s1 ! i) = call_send_scheduled_email_once m"
        "filter is_once (jobs mid) = filter is_once (jobs ?s1)"
        "prefix (outbox ?s1) (outbox mid)"
        "run_jobs send now ps ?s1 =
           (Some SystemExit, snd (send_scheduled_email_once send m mid))"
      by blast
    then show ?thesis
    proof cases
      case returns
      have "\<forall>i \<in> set (p # ps). \<not> is_once (jobs s ! i)"
        using returns(2) other False by auto
      moreover have "prefix (outbox s) (outbox s')"
        using out returns(4) by (auto intro: prefix_order.trans)
      ultimately have "run_jobs send now (p # ps) s = (None, s') \<and>
          (\<forall>i \<in> set (p # ps). \<not> is_once (jobs s ! i)) \<and>
          filter is_once (jobs s') = filter is_once (jobs s) \<and>
          prefix (outbox s) (outbox s')"
        using step returns(1,3) f by simp
      then show ?thesis by blast
    next
      case raises
      from raises(2) have "is_once (jobs ?s1 ! i)" by (simp add: is_once_def)
      then have "jobs ?s1 ! i = jobs s ! i" by (rule same)
      with raises(2) have "job_func (jobs s ! i) = call_send_scheduled_email_once m" by simp
      moreover have "prefix (outbox s) (outbox mid)"
        using out raises(4) by (auto intro: prefix_order.trans)
      ultimately have "i \<in> set (p # ps) \<and>
          job_func (jobs s ! i) = call_send_scheduled_email_once m \<and>
          filter is_once (jobs mid) = filter is_once (jobs s) \<and>
          prefix (outbox s) (outbox mid) \<and>
          run_jobs send now (p # ps) s =
            (Some SystemExit, snd (send_scheduled_email_once send m mid))"
        using step raises(1,3,5) f by simp
      then show ?thesis by blast
    qed
  qed
qed

lemma set_runnable:
  "set (runnable now js) = {i. i < length js \<and> next_run (js ! i) \<le> now}"
  by (auto simp: runnable_def should_run_def)

lemma once_member:
  "filter is_once js' = filter is_once js \<Longrightarrow> k \<in> set js \<Longrightarrow> is_once k \<Longrightarrow> k \<in> set js'"
proof -
  assume "filter is_once js' = filter is_once js" "k \<in> set js" "is_once k"
  then have "k \<in> set (filter is_once js')" by simp
  then show "k \<in> set js'" by simp
qed

text \<open>
  One round of the loop: either no one-shot job is due and \<open>run_pending\<close> returns, or a
  one-shot job of the store is due and its \<open>SystemExit\<close> leaves \<open>run_pending\<close>.
\<close>

lemma run_pending_cases:
  "(\<exists>s'. run_pending send now s = (None, s') \<and>
      (\<forall>k \<in> set (jobs s). is_once k \<longrightarrow> now < next_run k) \<and>
      filter is_once (jobs s') = filter is_once (jobs s) \<and>
      prefix (outbox s) (outbox s')) \<or>
   (\<exists>k m mid. k \<in> set (jobs s) \<and> is_once k \<and> next_run k \<le> now \<and>
      job_func k = call_send_scheduled_email_once m \<and>
      filter is_once (jobs mid) = filter is_once (jobs s) \<and>
      prefix (outbox s) (outbox mid) \<and>
      run_pending send now s = (Some SystemExit, snd (send_scheduled_email_once send m mid)))"
proof -
  let ?ps = "runnable now (jobs s)"
  have "\<And>i. i \<in> set ?ps \<Longrightarrow> i < length (jobs s)"
    by (simp add: set_runnable)
  from run_jobs_cases [of ?ps s send now, OF this] consider
    (returns) s' where "run_jobs send now ?ps s = (None, s')"
      "\<forall>i \<in> set ?ps. \<not> is_once (jobs s ! i)"
      "filter is_once (jobs s') = filter is_once (jobs s)"
      "prefix (outbox s) (outbox s')" |
    (raises) i m mid where "i \<in> set ?ps"
      "job_func (jobs s ! i) = call_send_scheduled_email_once m"
      "filter is_once (jobs mid) = filter is_once (jobs s)"
      "prefix (outbox s) (outbox mid)"
      "run_jobs send now ?ps s = (Some SystemExit, snd (send_scheduled_email_once send m mid))"
    by blast
  then show ?thesis
  proof cases
    case returns
    have "now < next_run k" if "k \<in> set (jobs s)" "is_once k" for k
    proof (rule ccontr)
      assume "\<not> now < next_run k"
      moreover from that(1) obtain i where "i < length (jobs s)" "jobs s ! i = k"
        by (auto simp: in_set_conv_nth)
      ultimately have "i \<in> set ?ps" by (simp add: set_runnable)
      with returns(2) \<open>jobs s ! i = k\<close> that(2) show False by auto
    qed
    with returns(1,3,4) have "run_pending send now s = (None, s') \<and>
        (\<forall>k \<in> set (jobs s). is_once k \<longrightarrow> now < next_run k) \<and>
        filter is_once (jobs s') = filter is_once (jobs s) \<and>
        prefix (outbox s) (outbox s')"
      by (simp add: run_pending_def)
    then show ?thesis by blast
  next
    case raises
    let ?k = "jobs s ! i"
    from raises(1) have "i < length (jobs s)" "next_run ?k \<le> now"
      by (simp_all add: set_runnable)
    moreover from raises(2) have "is_once ?k" by (simp add: is_once_def)
    ultimately have "?k \<in> set (jobs s) \<and> is_once ?k \<and> next_run ?k \<le> now \<and>
        job_func ?k = call_send_scheduled_email_once m \<and>
        filter is_once (jobs mid) = filter is_once (jobs s) \<and>
        prefix (outbox s) (outbox mid) \<and>
        run_pending send now s = (Some SystemExit, snd (send_scheduled_email_once send m mid))"
      using raises(2-5) by (simp add: run_pending_def)
    then show ?thesis by blast
  qed
qed

lemma run_pending_raises:
  assumes "j \<in> set (jobs s)" "is_once j" "next_run j \<le> now"
  shows "\<exists>k m mid. k \<in> set (jobs s) \<and> is_once k \<and> next_run k \<le> now \<and>
      job_func k = call_send_scheduled_email_once m \<and>
      filter is_once (jobs mid) = filter is_once (jobs s) \<and>
      prefix (outbox s) (outbox mid) \<and>
      run_pending send now s = (Some SystemExit, snd (send_scheduled_email_once send m mid))"
proof -
  have "\<not> (\<forall>k \<in> set (jobs s). is_once k \<longrightarrow> now < next_run k)"
    using assms by auto
  with run_pending_cases [of send now s] show ?thesis by blast
qed

lemma run_pending_returns:
  assumes "\<And>k. k \<in> set (jobs s) \<Longrightarrow> is_once k \<Longrightarrow> now < next_run k"
  shows "\<exists>s'. run_pending send now s = (None, s') \<and>
      filter is_once (jobs s') = filter is_once (jobs s) \<and>
      prefix (outbox s) (outbox s')"
proof -
  have "\<not> (\<exists>k. k \<in> set (jobs s) \<and> is_once k \<and> next_run k \<le> now)"
    using assms by force
  with run_pending_cases [of send now s] show ?thesis by blast
qed

text \<open>The rounds in which no one-shot job is due leave the loop running.\<close>

lemma run_scheduler_runs:
  assumes "\<And>t k. t \<in> set ticks \<Longrightarrow> k \<in> set (jobs s) \<Longrightarrow> is_once k \<Longrightarrow> t < next_run k"
  shows "\<exists>s'. run_scheduler send ticks s = Running s' \<and>
      filter is_once (jobs s') = filter is_once (jobs s) \<and>
      prefix (outbox s) (outbox s')"
  using assms
proof (induction ticks arbitrary: s)
  case Nil
  then show ?case by simp
next
  case (Cons t ticks)
  have "\<And>k. k \<in> set (jobs s) \<Longrightarrow> is_once k \<Longrightarrow> t < next_run k"
    using Cons.prems by simp
  from run_pending_returns [OF this] obtain s1 where
    p: "run_pending send t s = (None, s1)" and
    f: "filter is_once (jobs s1) = filter is_once (jobs s)" and
    o: "prefix (outbox s) (outbox s1)"
    by blast
  have "u < next_run k" if "u \<in> set ticks" "k \<in> set (jobs s1)" "is_once k" for u k
  proof -
    from f [symmetric] that(2,3) have "k \<in> set (jobs s)" by (rule once_member)
    with that(1,3) Cons.prems show ?thesis by simp
  qed
  from Cons.IH [OF this] obtain s' where
    "run_scheduler send ticks s1 = Running s'"
    "filter is_once (jobs s') = filter is_once (jobs s1)"
    "prefix (outbox s1) (outbox s')"
    by blast
  with p f o have "run_scheduler send (t # ticks) s = Running s' \<and>
      filter is_once (jobs s') = filter is_once (jobs s) \<and>
      prefix (outbox s) (outbox s')"
    by (auto intro: prefix_order.trans)
  then show ?case by blast
qed

lemma run_scheduler_append:
  "run_scheduler send (xs @ ys) s =
     (case run_scheduler send xs s of
        Running s1 \<Rightarrow> run_scheduler send ys s1
      | Stopped e s1 \<Rightarrow> Stopped e s1)"
  by (induction xs arbitrary: s) (auto split: prod.splits option.splits)

lemmas example_defs = example_mail_def example_store_def example_env_def example_bot_def

lemma once_tag_differs: "once_tag email \<noteq> once_tag email @ lit ''_'' @ stamp"
  by (simp add: lit_def)

text \<open>
  A job registered by \<open>schedule_email_datetime\<close> is a one-shot job, and the action of that
  job does not remove it: the tag that the action clears is not the tag of the job.
\<close>

lemma registered_job_survives:
  assumes "schedule_email_datetime rt stamp now now' m t s = Inr s'" "now < t"
  shows "is_once (last (jobs s')) \<and>
     job_func (last (jobs s')) = call_send_scheduled_email_once m \<and>
     last (jobs s') \<in> set (jobs (snd (send_scheduled_email_once send m s')))"
  using assms
  by (auto simp: schedule_email_datetime_def send_scheduled_email_once_def send_email_def
      clear_def Let_def lit_def is_once_def once_tag_def split: sum.splits)

section \<open>One-shot jobs in the store and in the loop\<close>

text \<open>
  C2. The claim (a one-shot job is removed from the store once its action has run, and is
  never run again) fails on the code. \<open>schedule_email_datetime\<close> tags the job
  \<open>once_<email>_<timestamp>\<close>, and \<open>send_scheduled_email_once\<close> clears the tag
  \<open>once_<email>\<close>, which no job carries. For a mail scheduled at 10:00 for 11:00, the
  round of 11:00 sends it and leaves the loop with \<open>SystemExit\<close>; the store still holds
  the job, unchanged, and a loop started at 11:30 sends the same mail a second time.
\<close>

theorem one_shot_job_not_removed:
  "run_scheduler (\<lambda>m. True) [mk_datetime 2024 1 1 10 59, mk_datetime 2024 1 1 11 0] example_store =
     Stopped SystemExit (example_store\<lparr>outbox := [example_mail]\<rparr>) \<and>
   length (jobs example_store) = 1 \<and>
   run_scheduler (\<lambda>m. True) [mk_datetime 2024 1 1 11 30] (example_store\<lparr>outbox := [example_mail]\<rparr>) =
     Stopped SystemExit (example_store\<lparr>outbox := [example_mail, example_mail]\<rparr>) \<and>
   schedule_email_datetime example_runtime (\<lambda>t. lit ''1704103200.0'')
       (mk_datetime 2024 1 1 10 0) (mk_datetime 2024 1 1 10 0) example_mail
       (mk_datetime 2024 1 1 11 0) \<lparr>jobs = [], outbox = []\<rparr> =
     Inr example_store"
  by (simp add: example_defs sched_evals evals)

text \<open>
  C4 (as amended). The action of a one-shot job always ends by raising \<open>SystemExit\<close>,
  whether the send succeeded or failed. Let a one-shot job of the store be due in a round
  of \<open>run_scheduler\<close>, and let no one-shot job be due in the rounds \<open>before\<close> it. Then the
  loop is still running after the rounds before, and it stops in that round, whatever
  rounds would follow and whether the send succeeds or fails: a one-shot job of the store
  that is due has run, on a store that still held it and that had lost no mail, and the
  \<open>SystemExit\<close> that its action raised has left the loop with the store that the action
  left. The stop follows the run of the job, not the success of the send.
\<close>

theorem one_shot_aborts_loop:
  assumes "j \<in> set (jobs s)" "is_once j" "next_run j \<le> now"
      and "\<forall>t \<in> set before. \<forall>k \<in> set (jobs s). is_once k \<longrightarrow> t < next_run k"
  shows "fst (send_scheduled_email_once send m' s') = SystemExit \<and>
         (\<exists>s1. run_scheduler send before s = Running s1) \<and>
         (\<exists>k m mid. k \<in> set (jobs s) \<and> is_once k \<and> next_run k \<le> now \<and>
            job_func k = call_send_scheduled_email_once m \<and>
            k \<in> set (jobs mid) \<and> prefix (outbox s) (outbox mid) \<and>
            run_scheduler send (before @ now # rest) s =
              Stopped SystemExit (snd (send_scheduled_email_once send m mid)))"
proof -
  have "\<And>t k. t \<in> set before \<Longrightarrow> k \<in> set (jobs s) \<Longrightarrow> is_once k \<Longrightarrow> t < next_run k"
    using assms(4) by blast
  from run_scheduler_runs [OF this] obtain s1 where
    r: "run_scheduler send before s = Running s1" and
    f: "filter is_once (jobs s1) = filter is_once (jobs s)" and
    o: "prefix (outbox s) (outbox s1)"
    by blast
  from f assms(1,2) have "j \<in> set (jobs s1)" by (rule once_member)
  from run_pending_raises [OF this assms(2,3)] obtain k m mid where
    k: "k \<in> set (jobs s1)" "is_once k" "next_run k \<le> now"
      "job_func k = call_send_scheduled_email_once m" and
    fm: "filter is_once (jobs mid) = filter is_once (jobs s1)" and
    om: "prefix (outbox s1) (outbox mid)" and
    p: "run_pending send now s1 = (Some SystemExit, snd (send_scheduled_email_once send m mid))"
    by blast
  from f [symmetric] k(1,2) have ks: "k \<in> set (jobs s)" by (rule once_member)
  from fm k(1,2) have km: "k \<in> set (jobs mid)" by (rule once_member)
  have "prefix (outbox s) (outbox mid)"
    using o om by (auto intro: prefix_order.trans)
  moreover have "run_scheduler send (before @ now # rest) s =
      Stopped SystemExit (snd (send_scheduled_email_once send m mid))"
    using r p by (simp add: run_scheduler_append)
  ultimately have "k \<in> set (jobs s) \<and> is_once k \<and> next_run k \<le> now \<and>
      job_func k = call_send_scheduled_email_once m \<and>
      k \<in> set (jobs mid) \<and> prefix (outbox s) (outbox mid) \<and>
      run_scheduler send (before @ now # rest) s =
        Stopped SystemExit (snd (send_scheduled_email_once send m mid))"
    using ks km k by simp
  then have "\<exists>k m mid. k \<in> set (jobs s) \<and> is_once k \<and> next_run k \<le> now \<and>
      job_func k = call_send_scheduled_email_once m \<and>
      k \<in> set (jobs mid) \<and> prefix (outbox s) (outbox mid) \<and>
      run_scheduler send (before @ now # rest) s =
        Stopped SystemExit (snd (send_scheduled_email_once send m mid))"
    by blast
  with r show ?thesis
    by (simp add: send_scheduled_email_once_def send_email_def)
qed

theorem one_shot_aborts_loop_witness:
  "hd (jobs example_store) \<in> set (jobs example_store) \<and>
   is_once (hd (jobs example_store)) \<and>
   next_run (hd (jobs example_store)) \<le> mk_datetime 2024 1 1 11 0 \<and>
   jobs example_store = [hd (jobs example_store)] \<and>
   mk_datetime 2024 1 1 10 59 < next_run (hd (jobs example_store)) \<and>
   run_scheduler (\<lambda>m. True) [mk_datetime 2024 1 1 10 59] example_store = Running example_store \<and>
   run_scheduler (\<lambda>m. True)
       [mk_datetime 2024 1 1 10 59, mk_datetime 2024 1 1 11 0, mk_datetime 2024 1 1 11 30]
       example_store =
     Stopped SystemExit (snd (send_scheduled_email_once (\<lambda>m. True) example_mail example_store)) \<and>
   snd (send_scheduled_email_once (\<lambda>m. True) example_mail example_store) =
     example_store\<lparr>outbox := [example_mail]\<rparr>"
  using one_shot_aborts_loop [of "hd (jobs example_store)" example_store
      "mk_datetime 2024 1 1 11 0" "[mk_datetime 2024 1 1 10 59]" "\<lambda>m. True" example_mail
      example_store "[mk_datetime 2024 1 1 11 30]"]
  by (simp add: example_defs sched_evals evals)

text \<open>
  The claim as it was stated ties the stop to a successful send. With a send that fails,
  the action raises \<open>SystemExit\<close> all the same and the loop stops.
\<close>

theorem failed_send_aborts_loop:
  "send_scheduled_email_once (\<lambda>m. False) example_mail example_store =
     (SystemExit, example_store\<lparr>outbox := [example_mail]\<rparr>) \<and>
   run_scheduler (\<lambda>m. False) [mk_datetime 2024 1 1 11 0] example_store =
     Stopped SystemExit (example_store\<lparr>outbox := [example_mail]\<rparr>)"
  by (simp add: example_defs sched_evals evals)

section \<open>An instant that is not in the future\<close>

text \<open>
  C10. If the instant that \<open>parse_send_time\<close> resolves is not after the clock read by
  \<open>schedule_email_datetime\<close>, that function returns without an exception and leaves the
  store as it is, and \<open>schedule_email_from_ai\<close> still answers with its confirmation of the
  scheduling: the store of its result is the store it was given, a thread for the loop is
  started and the user's planning state is cleared.
\<close>

theorem past_instant_registers_no_job:
  assumes "parse_send_time rt now (send_time d) = Inr t" "t \<le> now'"
  shows "schedule_email_datetime rt stamp now' now'' m t s = Inr s \<and>
         schedule_email_from_ai rt e now now' now'' b user_id d path =
           (b\<lparr>scheduler_threads := scheduler_threads b + 1,
              email_planning_state := (email_planning_state b)(user_id := None)\<rparr>,
            reply_scheduled (subject d) (get_user_email b user_id) t
              (take 100 (body d) @ (if 100 < length (body d) then lit ''...'' else []))) \<and>
         email_scheduler (fst (schedule_email_from_ai rt e now now' now'' b user_id d path)) =
           email_scheduler b"
proof -
  have s: "schedule_email_datetime rt stamp now' now'' m t s = Inr s" for stamp m s
    using assms(2) by (simp add: schedule_email_datetime_def)
  show ?thesis
    using assms(1) by (simp add: s schedule_email_from_ai_def Let_def)
qed

theorem past_instant_registers_no_job_witness:
  "parse_send_time example_runtime (mk_datetime 2024 1 1 10 0) (lit ''01.01.2000 10:00'') =
     Inr (mk_datetime 2000 1 1 10 0) \<and>
   mk_datetime 2000 1 1 10 0 \<le> mk_datetime 2024 1 1 10 0 \<and>
   schedule_email_from_ai example_runtime example_env (mk_datetime 2024 1 1 10 0)
       (mk_datetime 2024 1 1 10 0) (mk_datetime 2024 1 1 10 0) example_bot 7
       \<lparr>subject = lit ''Raport'', body = lit ''Tresc'', send_time = lit ''01.01.2000 10:00''\<rparr> None =
     (example_bot\<lparr>scheduler_threads := 1\<rparr>,
      reply_scheduled (lit ''Raport'') (lit ''a@b.pl'') (mk_datetime 2000 1 1 10 0) (lit ''Tresc''))"
proof -
  have p: "parse_send_time example_runtime (mk_datetime 2024 1 1 10 0)
      (send_time \<lparr>subject = lit ''Raport'', body = lit ''Tresc'', send_time = lit ''01.01.2000 10:00''\<rparr>) =
     Inr (mk_datetime 2000 1 1 10 0)"
    by (simp add: evals)
  have q: "mk_datetime 2000 1 1 10 0 \<le> mk_datetime 2024 1 1 10 0"
    by (simp add: evals)
  from past_instant_registers_no_job [OF p q, of _ _ _ _ example_env example_bot 7 None] p q
  show ?thesis
    by (simp add: example_defs get_user_email_def lit_def)
qed


section \<open>Facts about the conversation state\<close>

lemmas bot_evals = get_user_memory_def get_user_email_def slice_from_def max_history_def
  add_to_memory_def get_conversation_context_def request_context_def
  schedule_email_from_ai_def str_int_def last_assistant_message_def attachment_path_def
  handle_document_def handle_text_message_def analyze_message_with_ai_def
  parse_ai_response_def GOTOWE_def ZALACZNIK_def

lemma find_append_none:
  "(\<And>x. x \<in> set xs \<Longrightarrow> \<not> P x) \<Longrightarrow> find P (xs @ ys) = find P ys"
  by (induction xs) auto

lemma find_none: "(\<And>x. x \<in> set xs \<Longrightarrow> \<not> P x) \<Longrightarrow> find P xs = None"
  by (induction xs) auto

lemma last_assistant_message_found:
  assumes "\<And>t. t \<in> set after \<Longrightarrow> role t \<noteq> Assistant"
  shows "last_assistant_message (before @ \<lparr>role = Assistant, content = msg\<rparr> # after) = Some msg"
proof -
  have "find (\<lambda>m. role m = Assistant) (rev after @ \<lparr>role = Assistant, content = msg\<rparr> # rev before) =
      find (\<lambda>m. role m = Assistant) (\<lparr>role = Assistant, content = msg\<rparr> # rev before)"
    using assms by (intro find_append_none) simp
  then show ?thesis
    by (simp add: last_assistant_message_def)
qed

lemma last_assistant_message_none:
  assumes "\<And>t. t \<in> set messages \<Longrightarrow> role t \<noteq> Assistant"
  shows "last_assistant_message messages = None"
proof -
  have "find (\<lambda>m. role m = Assistant) (rev messages) = None"
    using assms by (intro find_none) simp
  then show ?thesis
    by (simp add: last_assistant_message_def)
qed

lemma prefix_GOTOWE_not_Nil: "prefix GOTOWE msg \<Longrightarrow> msg \<noteq> []"
  by (auto simp: GOTOWE_def lit_def)

lemma slice_from_last:
  assumes "1 \<le> n" "n < int (length xs)"
  shows "slice_from (- n) xs = drop (length xs - nat n) xs"
proof -
  have "nat (int (length xs) + - n) = length xs - nat n"
    using assms by linarith
  with assms show ?thesis by (simp add: slice_from_def)
qed

lemma max_history_get_user_memory [simp]:
  "max_history (fst (get_user_memory b user_id)) = max_history b"
  by (simp add: get_user_memory_def max_history_def split: option.splits)

lemma add_to_memory_kept:
  assumes "1 \<le> max_history b"
    and "old = (case conversation_memory b user_id of None \<Rightarrow> [] | Some ms \<Rightarrow> ms)"
    and "appended = old @ [\<lparr>role = r, content = c\<rparr>]"
  shows "conversation_memory (add_to_memory b user_id r c) user_id =
     Some (drop (length appended - nat (max_history b)) appended)"
proof -
  obtain b1 where g: "get_user_memory b user_id = (b1, old)"
    using assms(2) by (auto simp: get_user_memory_def split: option.splits)
  from g have mh: "max_history b1 = max_history b"
    using max_history_get_user_memory [of b user_id] by simp
  have kept: "(if max_history b < int (length appended)
        then slice_from (- max_history b) appended else appended) =
      drop (length appended - nat (max_history b)) appended"
  proof (cases "max_history b < int (length appended)")
    case True
    with assms(1) slice_from_last [of "max_history b" appended] show ?thesis by simp
  next
    case False
    then have "length appended - nat (max_history b) = 0" by simp
    with False show ?thesis by simp
  qed
  have "conversation_memory (add_to_memory b user_id r c) user_id =
      Some (if max_history b < int (length appended)
        then slice_from (- max_history b) appended else appended)"
    using g mh assms(3) by (simp add: add_to_memory_def Let_def)
  with kept show ?thesis by simp
qed

lemma kept_bounds:
  assumes "1 \<le> n" "appended = old @ [x]" "kept = drop (length appended - nat n) appended"
  shows "int (length kept) \<le> n" and "last kept = x" and "kept \<noteq> []"
proof -
  have "length kept \<le> nat n" using assms(3) by simp
  with assms(1) show "int (length kept) \<le> n" by linarith
  have lt: "length appended - nat n < length appended"
    using assms(1,2) by simp
  then show "kept \<noteq> []" using assms(3) by simp
  from lt have "last (drop (length appended - nat n) appended) = last appended"
    by (rule last_drop)
  with assms(2,3) show "last kept = x" by simp
qed

section \<open>The ready marker and the number of fields\<close>

text \<open>
  C1 (as amended). For every response that, once trimmed, begins with the ready marker
  \<open>GOTOWE:\<close>, the rule \<open>schedule_email\<close> matches exactly when the remainder splits into at
  least three fields at the pipes, that is when the response holds at least two pipe
  characters. The action then carries the first three fields, trimmed; further fields are
  ignored. A response with four or more fields is thus a \<open>schedule_email\<close>, not a
  \<open>text_response\<close>.
\<close>

theorem parse_ai_response_ready_marker:
  assumes "prefix GOTOWE (py_strip r)"
  shows "((\<exists>d. parse_ai_response r = Some (schedule_email d)) \<longleftrightarrow> 2 \<le> count_list r PIPE) \<and>
         (2 \<le> count_list r PIPE \<longrightarrow>
            (let parts = py_split PIPE (py_strip (py_replace GOTOWE [] (py_strip r)))
             in 3 \<le> length parts \<and>
                parse_ai_response r = Some (schedule_email
                  \<lparr>subject = py_strip (parts ! 0),
                   body = py_strip (parts ! 1),
                   send_time = py_strip (parts ! 2)\<rparr>)))"
proof -
  let ?parts = "py_split PIPE (py_strip (py_replace GOTOWE [] (py_strip r)))"
  have n: "length ?parts = count_list r PIPE + 1"
    by (rule ready_field_count)
  show ?thesis
  proof (cases "2 \<le> count_list r PIPE")
    case True
    with n have "3 \<le> length ?parts" by simp
    with assms True show ?thesis
      by (simp add: parse_ai_response_def Let_def)
  next
    case False
    with n have "\<not> 3 \<le> length ?parts" by simp
    with assms False show ?thesis
      by (simp add: parse_ai_response_def Let_def)
  qed
qed

theorem parse_ai_response_ready_marker_witness:
  "prefix GOTOWE (py_strip (lit ''GOTOWE: Hello|Body text|za 30 minut'')) \<and>
   parse_ai_response (lit ''GOTOWE: Hello|Body text|za 30 minut'') =
     Some (schedule_email
       \<lparr>subject = lit ''Hello'', body = lit ''Body text'', send_time = lit ''za 30 minut''\<rparr>)"
proof -
  have p: "prefix GOTOWE (py_strip (lit ''GOTOWE: Hello|Body text|za 30 minut''))"
    by (simp add: GOTOWE_def lit_def py_strip_def isspace_def)
  have c: "2 \<le> count_list (lit ''GOTOWE: Hello|Body text|za 30 minut'') PIPE"
    by (simp add: lit_def)
  from parse_ai_response_ready_marker [OF p] c
  show ?thesis
    using p by (simp add: Let_def GOTOWE_def lit_def py_strip_def isspace_def)
qed

text \<open>
  The claim as it was stated fails on a ready-marker response of four fields: the parser
  takes the first three and answers \<open>schedule_email\<close>.
\<close>

theorem parse_ai_response_four_fields:
  "length (py_split PIPE (lit '' a|b|c|d'')) = 4 \<and>
   parse_ai_response (lit ''GOTOWE: a|b|c|d'') =
     Some (schedule_email \<lparr>subject = lit ''a'', body = lit ''b'', send_time = lit ''c''\<rparr>) \<and>
   parse_ai_response (lit ''GOTOWE: a|b|c|d'') \<noteq> Some (text_response (lit ''GOTOWE: a|b|c|d''))"
  by (simp add: parse_ai_response_def GOTOWE_def lit_def py_strip_def isspace_def Let_def)

text \<open>
  With fewer than three fields the function reaches no \<open>return\<close> (the example of the
  specification, \<open>GOTOWE: only|two\<close>): the callers, which unpack a pair, fail on it.
\<close>

lemma parse_ai_response_two_fields:
  "parse_ai_response (lit ''GOTOWE: only|two'') = None"
  by (simp add: parse_ai_response_def GOTOWE_def lit_def py_strip_def isspace_def Let_def)


section \<open>Attachments\<close>

text \<open>
  C8. For a user without an entry in \<open>email_planning_state\<close> (no attachment is awaited),
  \<open>handle_document\<close> answers with the fixed reply that no attachment is expected and
  returns the state as it was: the store, the history and the planning state are
  unchanged, whatever the file and whether or not it could be fetched.
\<close>

theorem handle_document_not_expected:
  assumes "email_planning_state b user_id = None"
  shows "handle_document rt e t now now1 now2 b user_id file_name fetched = (b, reply_not_expected)"
  using assms by (simp add: handle_document_def)

theorem handle_document_not_expected_witness:
  "email_planning_state example_bot 7 = None \<and>
   handle_document example_runtime example_env (mk_datetime 2024 1 1 10 0)
       (mk_datetime 2024 1 1 10 0) (mk_datetime 2024 1 1 10 0) (mk_datetime 2024 1 1 10 0)
       example_bot 7 (lit ''raport.pdf'') True =
     (example_bot, reply_not_expected)"
proof -
  have n: "email_planning_state example_bot 7 = None"
    by (simp add: example_bot_def)
  from handle_document_not_expected [OF n] n show ?thesis by simp
qed

text \<open>
  When a file arrives for a user who awaits an attachment and the file is fetched,
  \<open>handle_document\<close> saves it and takes the most recent turn of the assistant in the
  user's history, whatever the earlier turns hold. Only if that one turn starts with the
  ready marker is the scheduling finished with the path of the saved file; otherwise the
  reply is that the attachment was received, and no job is registered.
\<close>

lemma handle_document_takes_last_assistant:
  assumes "email_planning_state b user_id \<noteq> None"
    and "conversation_memory b user_id = Some (before @ \<lparr>role = Assistant, content = msg\<rparr> # after)"
    and "\<And>u. u \<in> set after \<Longrightarrow> role u \<noteq> Assistant"
  shows "prefix GOTOWE msg \<Longrightarrow> parse_ai_response msg = Some (schedule_email d) \<Longrightarrow>
           handle_document rt e t now now1 now2 b user_id file_name True =
             schedule_email_from_ai rt e now now1 now2
               (b\<lparr>saved_files := saved_files b @ [attachment_path e t user_id file_name]\<rparr>)
               user_id d (Some (attachment_path e t user_id file_name))"
    and "\<not> prefix GOTOWE msg \<Longrightarrow>
           handle_document rt e t now now1 now2 b user_id file_name True =
             (b\<lparr>saved_files := saved_files b @ [attachment_path e t user_id file_name]\<rparr>,
              reply_attachment_received)"
proof -
  from assms(1) obtain info where w: "email_planning_state b user_id = Some info"
    by auto
  have l: "last_assistant_message (before @ \<lparr>role = Assistant, content = msg\<rparr> # after) = Some msg"
    using assms(3) by (intro last_assistant_message_found) simp
  {
    assume p: "prefix GOTOWE msg" "parse_ai_response msg = Some (schedule_email d)"
    then have "msg \<noteq> []" by (simp add: prefix_GOTOWE_not_Nil)
    with w assms(2) l p
    show "handle_document rt e t now now1 now2 b user_id file_name True =
             schedule_email_from_ai rt e now now1 now2
               (b\<lparr>saved_files := saved_files b @ [attachment_path e t user_id file_name]\<rparr>)
               user_id d (Some (attachment_path e t user_id file_name))"
      by (simp add: handle_document_def get_user_memory_def Let_def)
  }
  {
    assume "\<not> prefix GOTOWE msg"
    with w assms(2) l
    show "handle_document rt e t now now1 now2 b user_id file_name True =
             (b\<lparr>saved_files := saved_files b @ [attachment_path e t user_id file_name]\<rparr>,
              reply_attachment_received)"
      by (simp add: handle_document_def get_user_memory_def Let_def)
  }
qed

text \<open>
  C3. The claim (the file is attached to the latest plan of the history, however far back
  it lies and whatever the assistant said after it) fails on the code. User 7 writes
  \<open>wyslij raport za 30 minut\<close>; the assistant answers with a complete plan, which
  \<open>handle_text_message\<close> schedules at once, without a file. The user writes
  \<open>dodaj plik\<close>; the assistant answers with the request for the attachment, and the user
  now awaits an attachment. The user sends \<open>raport.pdf\<close>: \<open>handle_document\<close> saves the
  file, takes the last turn of the assistant, which is the request and not the plan, and
  answers that the attachment was received. The plan is in the history and parses to a
  \<open>schedule_email\<close>, but nothing is scheduled with the file: the store holds the one job
  of the plan, whose mail has no attachment.
\<close>

theorem handle_document_misses_plan:
  "handle_text_message example_runtime example_dialogue (mk_datetime 2024 1 1 10 0)
       (mk_datetime 2024 1 1 10 0) (mk_datetime 2024 1 1 10 0) (mk_datetime 2024 1 1 10 0)
       example_bot 7 (lit ''wyslij raport za 30 minut'') =
     (example_planned,
      Inr (reply_scheduled (lit ''Raport'') (lit ''a@b.pl'') (mk_datetime 2024 1 1 10 30)
        (lit ''W zalaczniku''))) \<and>
   handle_text_message example_runtime example_dialogue (mk_datetime 2024 1 1 10 1)
       (mk_datetime 2024 1 1 10 1) (mk_datetime 2024 1 1 10 1) (mk_datetime 2024 1 1 10 1)
       example_planned 7 (lit ''dodaj plik'') =
     (example_waiting, Inr (reply_attachment_request (lit ''Wyslij plik''))) \<and>
   email_planning_state example_waiting 7 = Some (lit ''Wyslij plik'') \<and>
   conversation_memory example_waiting 7 =
     Some [\<lparr>role = User, content = lit ''wyslij raport za 30 minut''\<rparr>,
           \<lparr>role = Assistant, content = lit ''GOTOWE: Raport|W zalaczniku|za 30 minut''\<rparr>,
           \<lparr>role = User, content = lit ''dodaj plik''\<rparr>,
           \<lparr>role = Assistant, content = ZALACZNIK @ lit '' Wyslij plik''\<rparr>] \<and>
   parse_ai_response (lit ''GOTOWE: Raport|W zalaczniku|za 30 minut'') =
     Some (schedule_email
       \<lparr>subject = lit ''Raport'', body = lit ''W zalaczniku'', send_time = lit ''za 30 minut''\<rparr>) \<and>
   handle_document example_runtime example_dialogue (mk_datetime 2024 1 1 10 2)
       (mk_datetime 2024 1 1 10 2) (mk_datetime 2024 1 1 10 2) (mk_datetime 2024 1 1 10 2)
       example_waiting 7 (lit ''raport.pdf'') True =
     (example_waiting\<lparr>saved_files := [lit ''attachments/attachment_7_1704103200.0_raport.pdf'']\<rparr>,
      reply_attachment_received) \<and>
   map job_func (jobs (email_scheduler example_waiting)) =
     [call_send_scheduled_email_once example_mail] \<and>
   attachments example_mail = None"
  by (simp add: example_planned_def example_waiting_def example_dialogue_def bot_evals
      example_defs evals sched_evals dec.simps)

section \<open>The cap of the history\<close>

text \<open>
  C9 (as amended). For every configured cap \<open>N \<ge> 1\<close>: after \<open>add_to_memory\<close> the history
  of the user is the old history with the new turn appended, cut down to its last \<open>N\<close>
  turns (the oldest go first), so its length is at most \<open>N\<close> and its last turn is the new
  one; and the context that \<open>analyze_message_with_ai\<close> builds for a message that is not
  empty ends with that message as a turn of the user, so the message is appended before
  the context is built.
\<close>

theorem add_to_memory_cap:
  assumes "1 \<le> max_history b"
  shows
    "(let old = (case conversation_memory b user_id of None \<Rightarrow> [] | Some ms \<Rightarrow> ms);
          appended = old @ [\<lparr>role = r, content = c\<rparr>];
          kept = drop (length appended - nat (max_history b)) appended
      in conversation_memory (add_to_memory b user_id r c) user_id = Some kept \<and>
         int (length kept) \<le> max_history b \<and>
         last kept = \<lparr>role = r, content = c\<rparr>) \<and>
     (message_text \<noteq> [] \<longrightarrow>
        (\<exists>earlier. snd (request_context e b user_id message_text) =
           earlier @ [\<lparr>role = User, content = message_text\<rparr>]))"
proof -
  define old where "old = (case conversation_memory b user_id of None \<Rightarrow> [] | Some ms \<Rightarrow> ms)"
  have first: "conversation_memory (add_to_memory b user_id r c) user_id = Some kept \<and>
         int (length kept) \<le> max_history b \<and> last kept = \<lparr>role = r, content = c\<rparr> \<and> kept \<noteq> []"
    if "appended = old @ [\<lparr>role = r, content = c\<rparr>]"
      and "kept = drop (length appended - nat (max_history b)) appended"
    for r c appended kept
    using add_to_memory_kept [OF assms old_def that(1)] kept_bounds [OF assms that] that(2)
    by simp
  have second: "\<exists>earlier. snd (request_context e b user_id message_text) =
           earlier @ [\<lparr>role = User, content = message_text\<rparr>]"
    if ne: "message_text \<noteq> []"
  proof -
    let ?b1 = "add_to_memory b user_id User message_text"
    define appended where "appended = old @ [\<lparr>role = User, content = message_text\<rparr>]"
    define kept where "kept = drop (length appended - nat (max_history b)) appended"
    from first [OF appended_def kept_def] have
      m: "conversation_memory ?b1 user_id = Some kept" and
      l: "last kept = \<lparr>role = User, content = message_text\<rparr>" and
      k: "kept \<noteq> []"
      by simp_all
    from k l have kl: "kept = butlast kept @ [\<lparr>role = User, content = message_text\<rparr>]"
      using append_butlast_last_id [of kept] by simp
    have "snd (request_context e b user_id message_text) =
        filter (\<lambda>msg. content msg \<noteq> [])
          (\<lparr>role = System, content = preamble e (get_user_email ?b1 user_id)\<rparr> # kept)"
      using m
      by (simp add: request_context_def get_conversation_context_def get_user_memory_def Let_def)
    also have "\<dots> = filter (\<lambda>msg. content msg \<noteq> [])
          (\<lparr>role = System, content = preamble e (get_user_email ?b1 user_id)\<rparr> # butlast kept) @
        [\<lparr>role = User, content = message_text\<rparr>]"
      by (subst kl) (simp add: ne)
    finally show ?thesis by blast
  qed
  from first [OF refl refl, of r c] second show ?thesis
    unfolding Let_def old_def by blast
qed

theorem add_to_memory_cap_witness:
  "1 \<le> max_history (example_short_bot 2) \<and>
   conversation_memory
     (add_to_memory (add_to_memory (add_to_memory (example_short_bot 2) 7 User (lit ''a''))
        7 Assistant (lit ''b'')) 7 User (lit ''c'')) 7 =
     Some [\<lparr>role = Assistant, content = lit ''b''\<rparr>, \<lparr>role = User, content = lit ''c''\<rparr>] \<and>
   snd (request_context example_env (example_short_bot 2) 7 (lit ''a'')) =
     [\<lparr>role = System, content = lit ''Zawsze wysylaj emaile na adres: borysm32@gmail.com''\<rparr>,
      \<lparr>role = User, content = lit ''a''\<rparr>]"
proof -
  have n: "1 \<le> max_history (example_short_bot 2)"
    by (simp add: example_short_bot_def max_history_def)
  from add_to_memory_cap [OF n, of 7 User "lit ''a''" "lit ''a''" example_env] n
  show ?thesis
    by (simp add: bot_evals example_short_bot_def example_bot_def example_env_def lit_def Let_def)
qed

text \<open>
  The claim as it was stated fails for the cap 0: the slice \<open>messages[-0:]\<close> is the whole
  list, so nothing is pruned and the history grows beyond the cap.
\<close>

theorem add_to_memory_cap_zero:
  "max_history (example_short_bot 0) = 0 \<and>
   conversation_memory
     (add_to_memory (add_to_memory (example_short_bot 0) 7 User (lit ''a''))
        7 Assistant (lit ''b'')) 7 =
     Some [\<lparr>role = User, content = lit ''a''\<rparr>, \<lparr>role = Assistant, content = lit ''b''\<rparr>] \<and>
   \<not> int (length [\<lparr>role = User, content = lit ''a''\<rparr>, \<lparr>role = Assistant, content = lit ''b''\<rparr>]) \<le>
       max_history (example_short_bot 0)"
  by (simp add: bot_evals example_short_bot_def example_bot_def lit_def Let_def)


section \<open>Facts about the branches of the time-expression parser\<close>






lemma parse_send_time_try_relative_value:
  assumes "prefix (lit ''za '') ts" "3 \<le> length (py_split_ws ts)"
    "py_int rt (py_split_ws ts ! 1) = Some amount"
  shows "parse_send_time_try rt now ts =
     (if py_contains (lit ''minut'') (py_split_ws ts ! 2) then now_plus now US_MINUTE amount
      else if py_contains (lit ''godzin'') (py_split_ws ts ! 2) then now_plus now US_HOUR amount
      else if py_contains (lit ''dni'') (py_split_ws ts ! 2) then now_plus now US_DAY amount
      else Inr None)"
  using assms unfolding parse_send_time_try_def Let_def by simp


section \<open>The result of the time-expression parser\<close>




section \<open>The default of one hour\<close>

text \<open>
  Let the clock be at least an hour before the end of the year 9999, so that
  \<open>now + 1 hour\<close> is a \<open>datetime\<close>. \<open>parse_send_time\<close> returns \<open>now + 1 hour\<close>
  \<^item> for every input that enters none of the three branches (the trimmed, lower-cased text
    does not start with \<open>za\<close> and a blank, does not hold both a dot and a colon, and is
    not five characters long with a colon);
  \<^item> for every input that starts with \<open>za\<close> and a blank but has fewer than three words,
    or whose second word is not an integer, or whose third word holds none of \<open>minut\<close>,
    \<open>godzin\<close>, \<open>dni\<close> anywhere;
  \<^item> for every input on which the body of the \<open>try\<close> raises a \<open>ValueError\<close> or an
    \<open>IndexError\<close>, in whichever branch.
\<close>

lemma parse_send_time_default:
  assumes "0 \<le> now" "now + US_HOUR < MAX_US"
  shows
    "(let time_str = py_lower rt (py_strip s); parts = py_split_ws time_str in
        (\<not> prefix (lit ''za '') time_str \<and>
         \<not> (DOT \<in> set time_str \<and> COLON \<in> set time_str) \<and>
         \<not> (length time_str = 5 \<and> COLON \<in> set time_str)
           \<longrightarrow> parse_send_time rt now s = Inr (now + US_HOUR)) \<and>
        (prefix (lit ''za '') time_str \<and> length parts < 3
           \<longrightarrow> parse_send_time rt now s = Inr (now + US_HOUR)) \<and>
        (prefix (lit ''za '') time_str \<and> 3 \<le> length parts \<and> py_int rt (parts ! 1) = None
           \<longrightarrow> parse_send_time rt now s = Inr (now + US_HOUR)) \<and>
        (prefix (lit ''za '') time_str \<and> 3 \<le> length parts \<and>
         \<not> py_contains (lit ''minut'') (parts ! 2) \<and>
         \<not> py_contains (lit ''godzin'') (parts ! 2) \<and>
         \<not> py_contains (lit ''dni'') (parts ! 2)
           \<longrightarrow> parse_send_time rt now s = Inr (now + US_HOUR)) \<and>
        (parse_send_time_try rt now time_str = Inl ValueError \<or>
         parse_send_time_try rt now time_str = Inl IndexError
           \<longrightarrow> parse_send_time rt now s = Inr (now + US_HOUR)))"
proof -
  define ts where "ts = py_lower rt (py_strip s)"
  have d: "datetime_add now US_HOUR = Inr (now + US_HOUR)"
    using assms by (simp add: datetime_add_def)
  have default: "parse_send_time rt now s = Inr (now + US_HOUR)"
    if "parse_send_time_try rt now ts = Inr None \<or> parse_send_time_try rt now ts = Inl ValueError \<or>
        parse_send_time_try rt now ts = Inl IndexError"
    using that d by (auto simp: parse_send_time_def ts_def)
  have none: "parse_send_time_try rt now ts = Inr None"
    if "\<not> prefix (lit ''za '') ts \<and> \<not> (DOT \<in> set ts \<and> COLON \<in> set ts) \<and>
        \<not> (length ts = 5 \<and> COLON \<in> set ts)"
    using that unfolding parse_send_time_try_def by auto
  have few: "parse_send_time_try rt now ts = Inr None"
    if "prefix (lit ''za '') ts \<and> length (py_split_ws ts) < 3"
    using that unfolding parse_send_time_try_def by (simp add: Let_def)
  have amount: "parse_send_time_try rt now ts = Inl ValueError"
    if "prefix (lit ''za '') ts \<and> 3 \<le> length (py_split_ws ts) \<and> py_int rt (py_split_ws ts ! 1) = None"
    using that unfolding parse_send_time_try_def by (simp add: Let_def)
  have unit: "parse_send_time_try rt now ts = Inr None \<or> parse_send_time_try rt now ts = Inl ValueError"
    if "prefix (lit ''za '') ts \<and> 3 \<le> length (py_split_ws ts) \<and>
        \<not> py_contains (lit ''minut'') (py_split_ws ts ! 2) \<and>
        \<not> py_contains (lit ''godzin'') (py_split_ws ts ! 2) \<and>
        \<not> py_contains (lit ''dni'') (py_split_ws ts ! 2)"
    using that unfolding parse_send_time_try_def by (simp add: Let_def split: option.splits)
  show ?thesis
    unfolding Let_def ts_def [symmetric]
    using default none few amount unit by blast
qed

lemma parse_send_time_default_examples:
  "(0::int) \<le> mk_datetime 2024 1 1 10 0 \<and> mk_datetime 2024 1 1 10 0 + US_HOUR < MAX_US \<and>
   parse_send_time example_runtime (mk_datetime 2024 1 1 10 0) (lit ''jutro rano'') =
     Inr (mk_datetime 2024 1 1 11 0) \<and>
   parse_send_time example_runtime (mk_datetime 2024 1 1 10 0) (lit ''za chwile'') =
     Inr (mk_datetime 2024 1 1 11 0) \<and>
   parse_send_time example_runtime (mk_datetime 2024 1 1 10 0) (lit ''za kilka minut'') =
     Inr (mk_datetime 2024 1 1 11 0) \<and>
   parse_send_time example_runtime (mk_datetime 2024 1 1 10 0) (lit ''za 2 lata'') =
     Inr (mk_datetime 2024 1 1 11 0) \<and>
   parse_send_time_try example_runtime (mk_datetime 2024 1 1 10 0) (lit ''32.13.2024 10:00'') = Inl ValueError \<and>
   parse_send_time example_runtime (mk_datetime 2024 1 1 10 0) (lit ''32.13.2024 10:00'') =
     Inr (mk_datetime 2024 1 1 11 0) \<and>
   parse_send_time_try example_runtime (mk_datetime 2024 1 1 10 0) (lit ''25:99'') = Inl ValueError \<and>
   parse_send_time example_runtime (mk_datetime 2024 1 1 10 0) (lit ''25:99'') =
     Inr (mk_datetime 2024 1 1 11 0)"
proof -
  have n: "(0::int) \<le> mk_datetime 2024 1 1 10 0" "mk_datetime 2024 1 1 10 0 + US_HOUR < MAX_US"
    by (simp_all add: evals)
  from parse_send_time_default [OF n, of _ "lit ''jutro rano''"]
    parse_send_time_default [OF n, of _ "lit ''za chwile''"]
    parse_send_time_default [OF n, of _ "lit ''za kilka minut''"]
    parse_send_time_default [OF n, of _ "lit ''za 2 lata''"]
    parse_send_time_default [OF n, of _ "lit ''32.13.2024 10:00''"]
    parse_send_time_default [OF n, of _ "lit ''25:99''"]
  show ?thesis
    by (simp add: evals)
qed

text \<open>
  C6. The claim (every input that matches none of the three grammars gives the default of
  one hour) fails on the code. The comment of the first branch gives its format as
  \<open>za X minut/godzin/dni\<close>, but the unit is tested with \<open>in\<close>, anywhere in the
  third word. The word \<open>tygodnie\<close> (weeks) starts with none of the three stems, so
  \<open>za 3 tygodnie\<close> matches no grammar; it holds \<open>dni\<close>, and the code reads it as three
  days: at 10:00 on 2024-01-01 the result is 10:00 on 2024-01-04 and not 11:00 on
  2024-01-01.
\<close>

theorem parse_send_time_weeks:
  "parse_send_time example_runtime (mk_datetime 2024 1 1 10 0) (lit ''za 3 tygodnie'') =
     Inr (mk_datetime 2024 1 4 10 0) \<and>
   mk_datetime 2024 1 4 10 0 = mk_datetime 2024 1 1 10 0 + 3 * US_DAY \<and>
   mk_datetime 2024 1 4 10 0 \<noteq> mk_datetime 2024 1 1 10 0 + US_HOUR \<and>
   \<not> prefix (lit ''minut'') (lit ''tygodnie'') \<and>
   \<not> prefix (lit ''godzin'') (lit ''tygodnie'') \<and>
   \<not> prefix (lit ''dni'') (lit ''tygodnie'') \<and>
   py_contains (lit ''dni'') (lit ''tygodnie'')"
  by (simp add: evals)

section \<open>Relative expressions\<close>

lemma prefix_py_contains: "prefix needle hay \<Longrightarrow> py_contains needle hay"
  by (cases hay) simp_all

lemma length_dec_in_range:
  assumes "0 \<le> now" "US_MINUTE \<le> unit" "now + int n * unit < MAX_US"
  shows "length (dec n) \<le> 640"
proof -
  have "int n * US_MINUTE \<le> int n * unit"
    using assms(2) by (intro mult_left_mono) simp_all
  with assms(1,3) have "int n * US_MINUTE < MAX_US" by linarith
  then have "n < 10 ^ 10" by simp
  then have "length (dec n) \<le> 10" by (rule length_dec) simp
  then show ?thesis by simp
qed

lemma parse_send_time_try_relative_word:
  assumes "w \<noteq> []" "\<And>c. c \<in> set w \<Longrightarrow> \<not> isspace c" "length (dec n) \<le> 640"
  shows "parse_send_time_try rt now (lit ''za '' @ dec n @ 32 # w) =
     (if py_contains (lit ''minut'') w then now_plus now US_MINUTE (int n)
      else if py_contains (lit ''godzin'') w then now_plus now US_HOUR (int n)
      else if py_contains (lit ''dni'') w then now_plus now US_DAY (int n)
      else Inr None)"
proof -
  have "prefix (lit ''za '') (lit ''za '' @ dec n @ 32 # w)" by simp
  moreover have "py_split_ws (lit ''za '' @ dec n @ 32 # w) = [lit ''za'', dec n, w]"
    using assms(1,2) by (rule relative_parts)
  moreover have "py_int rt (dec n) = Some (int n)"
    using assms(3) by (rule py_int_dec)
  ultimately show ?thesis
    by (simp add: parse_send_time_try_relative_value)
qed

text \<open>
  C7 (as amended). Let the expression, trimmed and in lower case, read \<open>za N w\<close>, where
  \<open>N\<close> is a natural number written in decimal and \<open>w\<close> is a word. For every \<open>now\<close>:
  \<^item> if \<open>w\<close> starts with \<open>minut\<close>, \<open>parse_send_time\<close> returns exactly \<open>now + N\<close> minutes;
  \<^item> if \<open>w\<close> starts with \<open>godzin\<close> (and does not hold \<open>minut\<close>), it returns exactly
    \<open>now + N\<close> hours;
  \<^item> if \<open>w\<close> starts with \<open>dni\<close> (and holds neither \<open>minut\<close> nor \<open>godzin\<close>), it returns
    exactly \<open>now + N\<close> days;

  each provided that the sum is still a \<open>datetime\<close> (not after the year 9999). An
  expression \<open>za N w\<close> whose word is written in the small letters a to z is its own
  trimmed, lower-case form, so \<open>za N godzin\<close>, \<open>za N minut\<close> and \<open>za N dni\<close> are
  instances, and so are the inflected forms such as \<open>za N godziny\<close>.
\<close>

theorem parse_send_time_relative:
  assumes "0 \<le> now" "w \<noteq> []" "\<forall>c \<in> set w. \<not> isspace c"
  shows "(py_lower rt (py_strip s) = lit ''za '' @ dec n @ 32 # w \<longrightarrow>
            (prefix (lit ''minut'') w \<and> now + int n * US_MINUTE < MAX_US \<longrightarrow>
               parse_send_time rt now s = Inr (now + int n * US_MINUTE)) \<and>
            (prefix (lit ''godzin'') w \<and> \<not> py_contains (lit ''minut'') w \<and>
             now + int n * US_HOUR < MAX_US \<longrightarrow>
               parse_send_time rt now s = Inr (now + int n * US_HOUR)) \<and>
            (prefix (lit ''dni'') w \<and> \<not> py_contains (lit ''minut'') w \<and>
             \<not> py_contains (lit ''godzin'') w \<and> now + int n * US_DAY < MAX_US \<longrightarrow>
               parse_send_time rt now s = Inr (now + int n * US_DAY))) \<and>
         ((\<forall>c \<in> set w. 97 \<le> c \<and> c \<le> 122) \<longrightarrow>
            py_lower rt (py_strip (lit ''za '' @ dec n @ 32 # w)) = lit ''za '' @ dec n @ 32 # w)"
proof -
  have word: "\<And>c. c \<in> set w \<Longrightarrow> \<not> isspace c"
    using assms(3) by blast
  have result: "parse_send_time rt now s = Inr (now + int n * unit)"
    if ts: "py_lower rt (py_strip s) = lit ''za '' @ dec n @ 32 # w"
      and u: "US_MINUTE \<le> unit" "now + int n * unit < MAX_US"
      and b: "parse_send_time_try rt now (lit ''za '' @ dec n @ 32 # w) = now_plus now unit (int n)"
    for unit
  proof -
    have "now_plus now unit (int n) = Inr (Some (now + int n * unit))"
      using assms(1) u by (intro now_plus_in_range) simp_all
    with b ts show ?thesis
      by (simp add: parse_send_time_def)
  qed
  have body: "parse_send_time_try rt now (lit ''za '' @ dec n @ 32 # w) =
     (if py_contains (lit ''minut'') w then now_plus now US_MINUTE (int n)
      else if py_contains (lit ''godzin'') w then now_plus now US_HOUR (int n)
      else if py_contains (lit ''dni'') w then now_plus now US_DAY (int n)
      else Inr None)"
    if "US_MINUTE \<le> unit" "now + int n * unit < MAX_US" for unit
    using assms(2) word length_dec_in_range [OF assms(1) that]
    by (rule parse_send_time_try_relative_word)
  show ?thesis
  proof (intro conjI impI)
    assume ts: "py_lower rt (py_strip s) = lit ''za '' @ dec n @ 32 # w"
      and h: "prefix (lit ''minut'') w \<and> now + int n * US_MINUTE < MAX_US"
    then have "py_contains (lit ''minut'') w" by (simp add: prefix_py_contains)
    with body [of US_MINUTE] h
    have "parse_send_time_try rt now (lit ''za '' @ dec n @ 32 # w) =
        now_plus now US_MINUTE (int n)" by simp
    with ts h show "parse_send_time rt now s = Inr (now + int n * US_MINUTE)"
      by (intro result) simp_all
  next
    assume ts: "py_lower rt (py_strip s) = lit ''za '' @ dec n @ 32 # w"
      and h: "prefix (lit ''godzin'') w \<and> \<not> py_contains (lit ''minut'') w \<and>
        now + int n * US_HOUR < MAX_US"
    then have "py_contains (lit ''godzin'') w" by (simp add: prefix_py_contains)
    with body [of US_HOUR] h
    have "parse_send_time_try rt now (lit ''za '' @ dec n @ 32 # w) =
        now_plus now US_HOUR (int n)" by simp
    with ts h show "parse_send_time rt now s = Inr (now + int n * US_HOUR)"
      by (intro result) simp_all
  next
    assume ts: "py_lower rt (py_strip s) = lit ''za '' @ dec n @ 32 # w"
      and h: "prefix (lit ''dni'') w \<and> \<not> py_contains (lit ''minut'') w \<and>
        \<not> py_contains (lit ''godzin'') w \<and> now + int n * US_DAY < MAX_US"
    then have "py_contains (lit ''dni'') w" by (simp add: prefix_py_contains)
    with body [of US_DAY] h
    have "parse_send_time_try rt now (lit ''za '' @ dec n @ 32 # w) =
        now_plus now US_DAY (int n)" by simp
    with ts h show "parse_send_time rt now s = Inr (now + int n * US_DAY)"
      by (intro result) simp_all
  next
    assume "\<forall>c \<in> set w. 97 \<le> c \<and> c \<le> 122"
    with assms(2)
    show "py_lower rt (py_strip (lit ''za '' @ dec n @ 32 # w)) = lit ''za '' @ dec n @ 32 # w"
      by (intro relative_text) simp_all
  qed
qed

theorem parse_send_time_relative_witness:
  "(0::int) \<le> mk_datetime 2024 1 1 10 0 \<and>
   mk_datetime 2024 1 1 10 0 + int 2 * US_HOUR < MAX_US \<and>
   lit ''za '' @ dec 2 @ 32 # lit ''godziny'' = lit ''za 2 godziny'' \<and>
   py_lower example_runtime (py_strip (lit '' Za 2 GODZINY '')) = lit ''za 2 godziny'' \<and>
   prefix (lit ''godzin'') (lit ''godziny'') \<and>
   parse_send_time example_runtime (mk_datetime 2024 1 1 10 0) (lit '' Za 2 GODZINY '') =
     Inr (mk_datetime 2024 1 1 12 0) \<and>
   parse_send_time example_runtime (mk_datetime 2024 1 1 10 0) (lit ''za 2 godziny'') =
     Inr (mk_datetime 2024 1 1 12 0) \<and>
   parse_send_time example_runtime (mk_datetime 2024 1 1 10 0) (lit ''za 2 godzin'') =
     Inr (mk_datetime 2024 1 1 12 0) \<and>
   parse_send_time example_runtime (mk_datetime 2024 1 1 10 0) (lit ''za 5 minuty'') =
     Inr (mk_datetime 2024 1 1 10 5) \<and>
   parse_send_time example_runtime (mk_datetime 2024 1 1 10 0) (lit ''za 3 dniach'') =
     Inr (mk_datetime 2024 1 4 10 0)"
proof -
  have n: "(0::int) \<le> mk_datetime 2024 1 1 10 0"
    by (simp add: evals)
  have w: "lit ''godziny'' \<noteq> []" "\<forall>c \<in> set (lit ''godziny''). \<not> isspace c"
    "lit ''godzin'' \<noteq> []" "\<forall>c \<in> set (lit ''godzin''). \<not> isspace c"
    "lit ''minuty'' \<noteq> []" "\<forall>c \<in> set (lit ''minuty''). \<not> isspace c"
    "lit ''dniach'' \<noteq> []" "\<forall>c \<in> set (lit ''dniach''). \<not> isspace c"
    by (simp_all add: lit_def isspace_def)
  from parse_send_time_relative [OF n w(1,2), of example_runtime "lit '' Za 2 GODZINY ''" 2]
    parse_send_time_relative [OF n w(1,2), of example_runtime "lit ''za 2 godziny''" 2]
    parse_send_time_relative [OF n w(3,4), of example_runtime "lit ''za 2 godzin''" 2]
    parse_send_time_relative [OF n w(5,6), of example_runtime "lit ''za 5 minuty''" 5]
    parse_send_time_relative [OF n w(7,8), of example_runtime "lit ''za 3 dniach''" 3]
  show ?thesis
    by (simp add: evals dec.simps)
qed

text \<open>
  The claim as it was stated fails for a large \<open>N\<close>: a hundred million hours from 2024
  lie beyond the year 9999, the addition raises an \<open>OverflowError\<close>, and the handler of
  \<open>parse_send_time\<close> does not catch it. It also fails for a word that starts with one
  stem and holds another: the units are tested in the order minutes, hours, days,
  anywhere in the word, so a word that starts with \<open>godzin\<close> and holds \<open>minut\<close> is read
  as minutes.
\<close>

theorem parse_send_time_relative_overflow:
  "lit ''za '' @ dec 100000000 @ lit '' godzin'' = lit ''za 100000000 godzin'' \<and>
   parse_send_time example_runtime (mk_datetime 2024 1 1 10 0) (lit ''za 100000000 godzin'') =
     Inl OverflowError \<and>
   prefix (lit ''godzin'') (lit ''godzinominut'') \<and>
   parse_send_time example_runtime (mk_datetime 2024 1 1 10 0) (lit ''za 2 godzinominut'') =
     Inr (mk_datetime 2024 1 1 10 2) \<and>
   mk_datetime 2024 1 1 10 2 \<noteq> mk_datetime 2024 1 1 10 0 + 2 * US_HOUR"
  by (simp add: evals dec.simps)

end
